theory Spec2Isabelle
  imports Main "HOL-Library.Word" "HOL-Library.Sublist"
begin

section \<open>JavaScript strings and values\<close>

text \<open>
  A JavaScript string is a sequence of UTF-16 code units. Indexing (\<open>t[0]\<close>),
  \<open>slice\<close>, \<open>includes\<close>, \<open>split\<close> and a regular expression without the \<open>u\<close> flag all
  work on code units, so the model does too. ASCII text is written with \<open>js\<close>.
\<close>

type_synonym jschar = "16 word"
type_synonym jsstr = "jschar list"

definition js :: "string \<Rightarrow> jsstr" where
  "js s = map of_char s"

text \<open>An array element or object property that may be \<open>undefined\<close>.\<close>

datatype jsval = Undefined | Str jsstr

datatype error = TypeError

definition hash :: jschar where "hash = 0x23"          \<comment> \<open>\<open>#\<close>\<close>
definition lower_b :: jschar where "lower_b = 0x62"     \<comment> \<open>\<open>b\<close>\<close>
definition slash :: jschar where "slash = 0x2F"         \<comment> \<open>\<open>/\<close>\<close>

text \<open>
  The four glyphs of the source: U+266F (sharp), U+266D (flat), and the two astral
  characters U+1D12A (double sharp) and U+1D12B (double flat), each a surrogate pair.
\<close>

definition glyph_sharp :: jsstr where "glyph_sharp = [0x266F]"
definition glyph_flat :: jsstr where "glyph_flat = [0x266D]"
definition glyph_dsharp :: jsstr where "glyph_dsharp = [0xD834, 0xDD2A]"
definition glyph_dflat :: jsstr where "glyph_dflat = [0xD834, 0xDD2B]"

text \<open>
  \<open>s.replace(/pat/g, rep)\<close> for a literal, non-empty pattern: scan from the left, replace
  each match and continue after it.
\<close>

function replaceAll :: "jsstr \<Rightarrow> jsstr \<Rightarrow> jsstr \<Rightarrow> jsstr" where
  "replaceAll pat rep [] = []"
| "replaceAll pat rep (c # cs) =
     (if pat \<noteq> [] \<and> prefix pat (c # cs)
      then rep @ replaceAll pat rep (drop (length pat) (c # cs))
      else c # replaceAll pat rep cs)"
  by pat_completeness auto
termination
  by (relation "measure (\<lambda>(pat, rep, s). length s)") auto

text \<open>\<open>s.replace(pat, rep)\<close> with a string pattern: only the first match is replaced.\<close>

fun replaceFirst :: "jsstr \<Rightarrow> jsstr \<Rightarrow> jsstr \<Rightarrow> jsstr" where
  "replaceFirst pat rep s =
     (if prefix pat s then rep @ drop (length pat) s
      else (case s of [] \<Rightarrow> [] | c # cs \<Rightarrow> c # replaceFirst pat rep cs))"

text \<open>\<open>s.split(sep)\<close> for a one-unit separator; the result is never empty.\<close>

fun splitOn :: "jschar \<Rightarrow> jsstr \<Rightarrow> jsstr list" where
  "splitOn sep [] = [[]]"
| "splitOn sep (c # cs) =
     (if c = sep then [] # splitOn sep cs
      else (case splitOn sep cs of
              [] \<Rightarrow> [[c]]
            | s # ss \<Rightarrow> (c # s) # ss))"

text \<open>
  \<open>trim\<close> removes white space and line terminators (ECMAScript \<open>WhiteSpace\<close> and
  \<open>LineTerminator\<close>, all in the basic plane) from both ends.
\<close>

definition isWhiteSpace :: "jschar \<Rightarrow> bool" where
  "isWhiteSpace c \<longleftrightarrow>
     c \<in> set [0x09, 0x0A, 0x0B, 0x0C, 0x0D, 0x20, 0xA0, 0x1680, 0x2028, 0x2029,
              0x202F, 0x205F, 0x3000, 0xFEFF]
     \<or> (0x2000 \<le> c \<and> c \<le> 0x200A)"

definition trim :: "jsstr \<Rightarrow> jsstr" where
  "trim s = rev (dropWhile isWhiteSpace (rev (dropWhile isWhiteSpace s)))"

text \<open>
  \<open>toUpperCase\<close> and \<open>toLowerCase\<close>, exact on ASCII. The full Unicode case tables are
  not modelled: other code units are left as they are. Every key name of the program is
  ASCII, and the four glyphs have no case.
\<close>

definition upperUnit :: "jschar \<Rightarrow> jschar" where
  "upperUnit c = (if 0x61 \<le> c \<and> c \<le> 0x7A then c - 0x20 else c)"

definition lowerUnit :: "jschar \<Rightarrow> jschar" where
  "lowerUnit c = (if 0x41 \<le> c \<and> c \<le> 0x5A then c + 0x20 else c)"

definition toUpperCase :: "jsstr \<Rightarrow> jsstr" where
  "toUpperCase s = map upperUnit s"

definition toLowerCase :: "jsstr \<Rightarrow> jsstr" where
  "toLowerCase s = map lowerUnit s"

section \<open>String helpers\<close>

definition asciiNote :: "jsstr \<Rightarrow> jsstr" where
  "asciiNote n =
     replaceAll glyph_dflat (js ''bb'')
       (replaceAll glyph_flat (js ''b'')
         (replaceAll glyph_dsharp (js ''##'')
           (replaceAll glyph_sharp (js ''#'') n)))"

text \<open>\<open>s.split("/")[0]\<close>.\<close>

definition firstSegment :: "jsstr \<Rightarrow> jsstr" where
  "firstSegment s = (case splitOn slash s of [] \<Rightarrow> [] | x # _ \<Rightarrow> x)"

text \<open>\<open>t.slice(1).replace(/[^#b]/g, "")\<close>.\<close>

definition accidentalsOf :: "jsstr \<Rightarrow> jsstr" where
  "accidentalsOf t = filter (\<lambda>c. c = hash \<or> c = lower_b) (drop 1 t)"

definition normalizeToken :: "jsstr \<Rightarrow> jsstr" where
  "normalizeToken n =
     (if n = [] then js ''C''
      else let t = trim (firstSegment (asciiNote n));
               L = (case t of [] \<Rightarrow> js ''C'' | c # _ \<Rightarrow> toUpperCase [c]);
               rest = accidentalsOf t
           in L @ rest)"

definition normalizeMinorToken :: "jsstr \<Rightarrow> jsstr" where
  "normalizeMinorToken n =
     (let t = trim (firstSegment (asciiNote n));
          L = (case t of [] \<Rightarrow> js ''a'' | c # _ \<Rightarrow> toLowerCase [c]);
          rest = accidentalsOf t
      in L @ rest)"

definition pretty :: "jsstr \<Rightarrow> jsstr" where
  "pretty n =
     replaceAll (js ''b'') glyph_flat
       (replaceAll (js ''#'') glyph_sharp
         (replaceAll (js ''bb'') glyph_dflat
           (replaceAll (js ''##'') glyph_dsharp n)))"

section \<open>Circle data\<close>

record Pos =
  major :: jsstr
  minor :: jsstr
  acc :: int

definition POSITIONS :: "Pos list" where
  "POSITIONS =
     [\<lparr>major = js ''C'', minor = js ''a'', acc = 0\<rparr>,
      \<lparr>major = js ''G'', minor = js ''e'', acc = 1\<rparr>,
      \<lparr>major = js ''D'', minor = js ''b'', acc = 2\<rparr>,
      \<lparr>major = js ''A'', minor = js ''f#'', acc = 3\<rparr>,
      \<lparr>major = js ''E'', minor = js ''c#'', acc = 4\<rparr>,
      \<lparr>major = js ''B'', minor = js ''g#'', acc = 5\<rparr>,
      \<lparr>major = js ''F# / Gb'', minor = js ''d# / eb'', acc = 6\<rparr>,
      \<lparr>major = js ''Db / C#'', minor = js ''bb / a#'', acc = - 5\<rparr>,
      \<lparr>major = js ''Ab'', minor = js ''f'', acc = - 4\<rparr>,
      \<lparr>major = js ''Eb'', minor = js ''c'', acc = - 3\<rparr>,
      \<lparr>major = js ''Bb'', minor = js ''g'', acc = - 2\<rparr>,
      \<lparr>major = js ''F'', minor = js ''d'', acc = - 1\<rparr>]"

definition ORDER_SHARPS :: "jsstr list" where
  "ORDER_SHARPS = map js [''F'', ''C'', ''G'', ''D'', ''A'', ''E'', ''B'']"

definition ORDER_FLATS :: "jsstr list" where
  "ORDER_FLATS = map js [''B'', ''E'', ''A'', ''D'', ''G'', ''C'', ''F'']"

text \<open>A lookup in an object literal: \<open>None\<close> is \<open>undefined\<close>.\<close>

definition NAT_PC :: "jsstr \<rightharpoonup> int" where
  "NAT_PC = map_of
     [(js ''C'', 0), (js ''D'', 2), (js ''E'', 4), (js ''F'', 5), (js ''G'', 7),
      (js ''A'', 9), (js ''B'', 11)]"

definition MAJOR_SIG_COUNTS :: "jsstr \<rightharpoonup> int" where
  "MAJOR_SIG_COUNTS = map_of
     [(js ''C'', 0), (js ''G'', 1), (js ''D'', 2), (js ''A'', 3), (js ''E'', 4),
      (js ''B'', 5), (js ''F#'', 6), (js ''C#'', 7),
      (js ''F'', - 1), (js ''Bb'', - 2), (js ''Eb'', - 3), (js ''Ab'', - 4),
      (js ''Db'', - 5), (js ''Gb'', - 6), (js ''Cb'', - 7)]"

definition MINOR_REL_MAJOR :: "jsstr \<rightharpoonup> jsstr" where
  "MINOR_REL_MAJOR = map_of
     [(js ''a'', js ''C''), (js ''e'', js ''G''), (js ''b'', js ''D''),
      (js ''f#'', js ''A''), (js ''c#'', js ''E''), (js ''g#'', js ''B''),
      (js ''d#'', js ''F#''), (js ''a#'', js ''C#''),
      (js ''d'', js ''F''), (js ''g'', js ''Bb''), (js ''c'', js ''Eb''),
      (js ''f'', js ''Ab''), (js ''bb'', js ''Db''), (js ''eb'', js ''Gb''),
      (js ''ab'', js ''Cb'')]"

section \<open>Enharmonic preference\<close>

datatype EnhPref = Auto | Sharps | Flats

text \<open>
  The array pattern \<open>[aRaw, bRaw]\<close> takes the first two parts of the split. A string
  that includes the separator always splits into at least two parts (lemma
  \<open>splitOn_two\<close> below), so the last case is never taken.
\<close>

definition resolveEnharmonic :: "jsstr \<Rightarrow> int \<Rightarrow> EnhPref \<Rightarrow> jsstr" where
  "resolveEnharmonic raw posAcc pref =
     (if slash \<notin> set raw then raw
      else (case map trim (splitOn slash raw) of
              aRaw # bRaw # _ \<Rightarrow>
                let a = asciiNote aRaw;
                    aSharp = (hash \<in> set a);
                    sharpName = (if aSharp then aRaw else bRaw);
                    flatName = (if aSharp then bRaw else aRaw)
                in if pref = Sharps then sharpName
                   else if pref = Flats then flatName
                   else if 0 \<le> posAcc then sharpName else flatName
            | _ \<Rightarrow> raw))"

section \<open>Signatures and scale building\<close>

datatype SigType = SharpSig | FlatSig

text \<open>
  \<open>sig_count = None\<close> is \<open>NaN\<close>: the count of a name that is not in
  \<open>MAJOR_SIG_COUNTS\<close> is \<open>Math.abs(undefined)\<close>. There \<open>undefined >= 0\<close> is false, so
  the type is \<open>"b"\<close>, and \<open>slice(0, NaN)\<close> is empty.
\<close>

record Sig =
  sig_type :: SigType
  sig_count :: "nat option"
  sig_set :: "jsstr set"

definition signatureForMajorName :: "jsstr \<Rightarrow> Sig" where
  "signatureForMajorName majorName =
     (let key = normalizeToken majorName in
      case MAJOR_SIG_COUNTS key of
        None \<Rightarrow> \<lparr>sig_type = FlatSig, sig_count = None, sig_set = {}\<rparr>
      | Some count \<Rightarrow>
          let ty = (if 0 \<le> count then SharpSig else FlatSig);
              letters = take (nat \<bar>count\<bar>) (if ty = SharpSig then ORDER_SHARPS else ORDER_FLATS)
          in \<lparr>sig_type = ty, sig_count = Some (nat \<bar>count\<bar>), sig_set = set letters\<rparr>)"

definition applySignature :: "jsstr \<Rightarrow> Sig \<Rightarrow> jsstr" where
  "applySignature letter sig =
     (if sig_count sig = Some 0 then letter
      else if sig_type sig = SharpSig \<and> letter \<in> sig_set sig then letter @ js ''#''
      else if sig_type sig = FlatSig \<and> letter \<in> sig_set sig then letter @ js ''b''
      else letter)"

text \<open>
  On the empty string \<open>spelled[0]\<close> is \<open>undefined\<close>, which the concatenation prints.
\<close>

definition raiseHalfStep :: "jsstr \<Rightarrow> jsstr" where
  "raiseHalfStep spelled =
     (case spelled of
        [] \<Rightarrow> js ''undefined#''
      | L # accs \<Rightarrow>
          if lower_b \<in> set accs then L # replaceFirst (js ''b'') [] accs
          else L # accs @ js ''#'')"

definition relativeMajorFromMinor :: "jsstr \<Rightarrow> EnhPref \<Rightarrow> jsstr" where
  "relativeMajorFromMinor minorName pref =
     (let nm = normalizeMinorToken minorName in
      if nm = js ''a#'' \<or> nm = js ''bb'' then (if pref = Flats then js ''Db'' else js ''C#'')
      else if nm = js ''d#'' \<or> nm = js ''eb'' then (if pref = Flats then js ''Gb'' else js ''F#'')
      else if nm = js ''g#'' \<or> nm = js ''ab'' then (if pref = Flats then js ''Cb'' else js ''B'')
      else (case MINOR_REL_MAJOR nm of Some v \<Rightarrow> v | None \<Rightarrow> js ''C''))"

datatype Mode = Major | Minor

definition LETTERS :: "jsstr list" where
  "LETTERS = map js [''C'', ''D'', ''E'', ''F'', ''G'', ''A'', ''B'']"

text \<open>\<open>xs.indexOf(x)\<close>: the first index, or \<open>-1\<close>.\<close>

fun indexOfFrom :: "jsstr list \<Rightarrow> jsstr \<Rightarrow> int \<Rightarrow> int" where
  "indexOfFrom [] x k = - 1"
| "indexOfFrom (y # ys) x k = (if y = x then k else indexOfFrom ys x (k + 1))"

definition indexOf :: "jsstr list \<Rightarrow> jsstr \<Rightarrow> int" where
  "indexOf xs x = indexOfFrom xs x 0"

text \<open>The remainder \<open>a % b\<close> of JavaScript takes the sign of \<open>a\<close> (here \<open>b\<close> is positive).\<close>

definition js_rem :: "int \<Rightarrow> int \<Rightarrow> int" where
  "js_rem a b = (if 0 \<le> a then a mod b else - ((- a) mod b))"

text \<open>Reading an array out of range gives \<open>undefined\<close>.\<close>

definition strAt :: "jsstr list \<Rightarrow> int \<Rightarrow> jsval" where
  "strAt xs k = (if 0 \<le> k \<and> k < int (length xs) then Str (xs ! nat k) else Undefined)"

definition valAt :: "jsval list \<Rightarrow> int \<Rightarrow> jsval" where
  "valAt xs k = (if 0 \<le> k \<and> k < int (length xs) then xs ! nat k else Undefined)"

text \<open>\<open>Array.from({length:7}, (_, i) => LETTERS[(start+i)%7])\<close>.\<close>

definition walkLetters :: "int \<Rightarrow> jsval list" where
  "walkLetters start = map (\<lambda>i. strAt LETTERS (js_rem (start + int i) 7)) [0..<7]"

text \<open>
  \<open>applySignature\<close> inside \<open>letters.map\<close>: on \<open>undefined\<close> every test of the function
  fails (or the count is 0) and \<open>undefined\<close> is returned.
\<close>

definition applySignatureVal :: "Sig \<Rightarrow> jsval \<Rightarrow> jsval" where
  "applySignatureVal sig v = (case v of Undefined \<Rightarrow> Undefined | Str L \<Rightarrow> Str (applySignature L sig))"

text \<open>The major branch of \<open>buildScaleFromKeyName\<close>.\<close>

definition majorScale :: "jsstr \<Rightarrow> jsval list" where
  "majorScale tonicRaw =
     (let tonic = normalizeToken tonicRaw;
          sig = signatureForMajorName tonic;
          start = (case tonic of [] \<Rightarrow> - 1 | c # _ \<Rightarrow> indexOf LETTERS [c]);
          letters = walkLetters start;
          scale = map (applySignatureVal sig) letters
      in scale[0 := Str tonic])"

text \<open>
  The minor branch up to and including \<open>scale[0] = tonicLetter + tonic.slice(1)\<close>.
  \<open>tonic[0].toUpperCase()\<close> throws on an empty token; the normalizer never returns
  one (lemma \<open>buildScaleFromKeyName_total\<close> below).
\<close>

definition minorScaleBeforeRaise :: "jsstr \<Rightarrow> EnhPref \<Rightarrow> error + jsval list" where
  "minorScaleBeforeRaise tonicRaw enhPref =
     (let tonic = normalizeMinorToken tonicRaw in
      case tonic of
        [] \<Rightarrow> Inl TypeError
      | c # _ \<Rightarrow>
          let tonicLetter = toUpperCase [c];
              relMaj = relativeMajorFromMinor tonicRaw enhPref;
              sig = signatureForMajorName relMaj;
              start = indexOf LETTERS tonicLetter;
              letters = walkLetters start;
              scale = map (applySignatureVal sig) letters
          in Inr (scale[0 := Str (tonicLetter @ drop 1 tonic)]))"

text \<open>\<open>scale[6] = raiseHalfStep(scale[6])\<close>; \<open>raiseHalfStep(undefined)\<close> throws.\<close>

definition raiseSeventh :: "jsval list \<Rightarrow> error + jsval list" where
  "raiseSeventh scale =
     (case valAt scale 6 of
        Undefined \<Rightarrow> Inl TypeError
      | Str s \<Rightarrow> Inr (scale[6 := Str (raiseHalfStep s)]))"

definition buildScaleFromKeyName :: "jsstr \<Rightarrow> Mode \<Rightarrow> EnhPref \<Rightarrow> error + jsval list" where
  "buildScaleFromKeyName tonicRaw mode enhPref =
     (if mode = Major then Inr (majorScale tonicRaw)
      else (case minorScaleBeforeRaise tonicRaw enhPref of
              Inl e \<Rightarrow> Inl e
            | Inr scale \<Rightarrow> raiseSeventh scale))"

text \<open>The tonic the application passes: the name of the circle position, resolved.\<close>

definition tonicNameForSpelling :: "Pos \<Rightarrow> Mode \<Rightarrow> EnhPref \<Rightarrow> jsstr" where
  "tonicNameForSpelling pos mode enhPref =
     resolveEnharmonic (if mode = Major then major pos else minor pos) (acc pos) enhPref"

section \<open>Chords\<close>

record chord =
  rn :: jsval
  tones :: "jsval list"

definition degree_sign :: jschar where "degree_sign = 0xB0"      \<comment> \<open>U+00B0\<close>
definition o_slash :: jschar where "o_slash = 0xF8"              \<comment> \<open>U+00F8\<close>

definition RN_MINOR :: "jsstr list" where
  "RN_MINOR = [js ''i'', js ''ii'' @ [degree_sign], js ''III+'', js ''iv'', js ''V'', js ''VI'',
               js ''vii'' @ [degree_sign]]"

definition RN_MAJOR :: "jsstr list" where
  "RN_MAJOR = [js ''I'', js ''ii'', js ''iii'', js ''IV'', js ''V'', js ''vi'',
               js ''vii'' @ [degree_sign]]"

definition diatonicTriads :: "jsval list \<Rightarrow> Mode \<Rightarrow> chord list" where
  "diatonicTriads scale mode =
     (let rnl = (if mode = Minor then RN_MINOR else RN_MAJOR) in
      map (\<lambda>(r, i). \<lparr>rn = strAt rnl (int i),
                      tones = [r, valAt scale (js_rem (int i + 2) 7),
                               valAt scale (js_rem (int i + 4) 7)]\<rparr>)
          (zip scale [0..<length scale]))"

definition diatonicSevenths :: "jsval list \<Rightarrow> Mode \<Rightarrow> chord list" where
  "diatonicSevenths scale mode =
     (let pc = (\<lambda>i. valAt scale (js_rem i 7)) in
      if mode = Major then
        [\<lparr>rn = Str (js ''Imaj7''), tones = [pc 0, pc 2, pc 4, pc 6]\<rparr>,
         \<lparr>rn = Str (js ''ii7''), tones = [pc 1, pc 3, pc 5, pc 0]\<rparr>,
         \<lparr>rn = Str (js ''iii7''), tones = [pc 2, pc 4, pc 6, pc 1]\<rparr>,
         \<lparr>rn = Str (js ''IVmaj7''), tones = [pc 3, pc 5, pc 0, pc 2]\<rparr>,
         \<lparr>rn = Str (js ''V7''), tones = [pc 4, pc 6, pc 1, pc 3]\<rparr>,
         \<lparr>rn = Str (js ''vi7''), tones = [pc 5, pc 0, pc 2, pc 4]\<rparr>,
         \<lparr>rn = Str (js ''vii'' @ [o_slash] @ js ''7''), tones = [pc 6, pc 1, pc 3, pc 5]\<rparr>]
      else
        [\<lparr>rn = Str (js ''i mMaj7''), tones = [pc 0, pc 2, pc 4, pc 6]\<rparr>,
         \<lparr>rn = Str (js ''ii'' @ [o_slash] @ js ''7''), tones = [pc 1, pc 3, pc 5, pc 0]\<rparr>,
         \<lparr>rn = Str (js ''III+maj7''), tones = [pc 2, pc 4, pc 6, pc 1]\<rparr>,
         \<lparr>rn = Str (js ''iv7''), tones = [pc 3, pc 5, pc 0, pc 2]\<rparr>,
         \<lparr>rn = Str (js ''V7''), tones = [pc 4, pc 6, pc 1, pc 3]\<rparr>,
         \<lparr>rn = Str (js ''VImaj7''), tones = [pc 5, pc 0, pc 2, pc 4]\<rparr>,
         \<lparr>rn = Str (js ''vii'' @ [degree_sign] @ js ''7''), tones = [pc 6, pc 1, pc 3, pc 5]\<rparr>])"

section \<open>Tuning\<close>

text \<open>
  The numbers of the source are IEEE doubles. Sums and products of integers are exact as
  long as every operand and result is an integer of absolute value at most \<open>2^53\<close>;
  there the model computes with \<open>int\<close>. Outside this range the source rounds, and the
  model answers \<open>Inexact\<close> instead of a number. The octave is an integer (the
  application passes 4 and 5).
\<close>

datatype jsnumber = NaN | Num int | Inexact

definition exactInt :: "int \<Rightarrow> bool" where
  "exactInt n \<longleftrightarrow> - (2 ^ 53) \<le> n \<and> n \<le> 2 ^ 53"

text \<open>
  The result is \<open>NaN\<close> when the letter is not a key of \<open>NAT_PC\<close>. The count of
  matches of \<open>/#/g\<close> is the number of \<open>#\<close> in the run, at most the length of the
  string.
\<close>

definition spelledToMidi :: "jsstr \<Rightarrow> int \<Rightarrow> jsnumber" where
  "spelledToMidi note oct =
     (let N = asciiNote (normalizeToken note) in
      case (case N of [] \<Rightarrow> None | L # _ \<Rightarrow> NAT_PC [L]) of
        None \<Rightarrow> NaN
      | Some p \<Rightarrow>
          let accs = drop 1 N;
              sigma = int (count_list accs hash) - int (count_list accs lower_b);
              pc = js_rem (p + sigma + 120) 12;
              m = 12 * (oct + 1)
          in if exactInt (p + sigma) \<and> exactInt (p + sigma + 120) \<and>
                exactInt oct \<and> exactInt (oct + 1) \<and> exactInt m \<and> exactInt (m + pc)
             then Num (m + pc) else Inexact)"

section \<open>Vocabulary of the specification\<close>

text \<open>The six minor tonics at the enharmonic boundaries, handled before the table.\<close>

definition BOUNDARY_MINORS :: "jsstr list" where
  "BOUNDARY_MINORS = map js [''a#'', ''bb'', ''d#'', ''eb'', ''g#'', ''ab'']"

text \<open>
  The accidental runs of a pitch spelling, and the spellings the specification calls
  canonical: a letter A to G followed by one of these runs. The run of a spelling is
  what follows its first code unit.
\<close>

definition RUNS :: "jsstr list" where
  "RUNS = map js ['''', ''#'', ''##'', ''b'', ''bb'']"

definition homogeneous :: "jsstr \<Rightarrow> bool" where
  "homogeneous s \<longleftrightarrow> drop 1 s \<in> set RUNS"

definition canonical :: "jsstr \<Rightarrow> bool" where
  "canonical s \<longleftrightarrow> take 1 s \<in> set LETTERS \<and> drop 1 s \<in> set RUNS"

definition CANONICAL_SPELLINGS :: "jsstr list" where
  "CANONICAL_SPELLINGS = concat (map (\<lambda>L. map (\<lambda>r. L @ r) RUNS) LETTERS)"

text \<open>
  The seven natural letters in their cyclic order, starting at a given letter; and the
  letter of a scale entry (its first code unit).
\<close>

definition cycleFrom :: "jsstr \<Rightarrow> jsstr list" where
  "cycleFrom l = dropWhile (\<lambda>x. x \<noteq> l) LETTERS @ takeWhile (\<lambda>x. x \<noteq> l) LETTERS"

fun letterOf :: "jsval \<Rightarrow> jsstr" where
  "letterOf Undefined = []"
| "letterOf (Str s) = take 1 s"

text \<open>
  The tonic names of the catalog: the name of each position as it is stored, and its
  sharp and its flat candidate (the same name where the stored name is not dual).
\<close>

definition MINOR_TONICS :: "jsstr list" where
  "MINOR_TONICS =
     concat (map (\<lambda>p. [minor p, resolveEnharmonic (minor p) (acc p) Sharps,
                         resolveEnharmonic (minor p) (acc p) Flats]) POSITIONS)"

definition MAJOR_TONICS :: "jsstr list" where
  "MAJOR_TONICS =
     concat (map (\<lambda>p. [major p, resolveEnharmonic (major p) (acc p) Sharps,
                         resolveEnharmonic (major p) (acc p) Flats]) POSITIONS)"

text \<open>
  A half of a dual name is sharp-marked when it contains a sharp mark, written \<open>#\<close> or
  as a glyph.
\<close>

definition sharpMarked :: "jsstr \<Rightarrow> bool" where
  "sharpMarked h \<longleftrightarrow> hash \<in> set (asciiNote h)"

text \<open>The net accidental offset of a run: the number of \<open>#\<close> minus the number of \<open>b\<close>.\<close>

definition netOffset :: "jsstr \<Rightarrow> int" where
  "netOffset run = int (count_list run hash) - int (count_list run lower_b)"

section \<open>Relative major of a minor tonic\<close>

lemma boundary_names_differ:
  "js ''a#'' \<noteq> js ''d#''" "js ''a#'' \<noteq> js ''eb''" "js ''a#'' \<noteq> js ''g#''"
  "js ''a#'' \<noteq> js ''ab''" "js ''bb'' \<noteq> js ''d#''" "js ''bb'' \<noteq> js ''eb''"
  "js ''bb'' \<noteq> js ''g#''" "js ''bb'' \<noteq> js ''ab''" "js ''d#'' \<noteq> js ''g#''"
  "js ''d#'' \<noteq> js ''ab''" "js ''eb'' \<noteq> js ''g#''" "js ''eb'' \<noteq> js ''ab''"
  by (simp_all add: js_def)

lemma normalizeMinorToken_examples:
  "normalizeMinorToken (js ''bb / a#'') = js ''bb''"
  "normalizeMinorToken (js ''d#'') = js ''d#''"
  "normalizeMinorToken (js ''Ab'') = js ''ab''"
  "normalizeMinorToken (js ''f#'') = js ''f#''"
  "normalizeMinorToken (js ''h'') = js ''h''"
  by code_simp+

lemma MINOR_REL_MAJOR_examples:
  "MINOR_REL_MAJOR (js ''f#'') = Some (js ''A'')"
  "MINOR_REL_MAJOR (js ''h'') = None"
  by code_simp+

lemma not_boundary_examples:
  "js ''f#'' \<notin> set BOUNDARY_MINORS"
  "js ''h'' \<notin> set BOUNDARY_MINORS"
  by code_simp+

text \<open>
  Claim C5. The three boundary minor tonics are resolved by the preference alone: for the
  normalized tokens \<open>a#\<close>/\<open>bb\<close> the relative major is \<open>Db\<close> under the flats preference
  and \<open>C#\<close> otherwise, for \<open>d#\<close>/\<open>eb\<close> it is \<open>Gb\<close> or \<open>F#\<close>, for \<open>g#\<close>/\<open>ab\<close> it is
  \<open>Cb\<close> or \<open>B\<close>. Every other minor tonic of the table maps to its table entry,
  whatever the preference.
\<close>

theorem relativeMajorFromMinor_boundary:
  "(normalizeMinorToken n \<in> {js ''a#'', js ''bb''} \<longrightarrow>
      relativeMajorFromMinor n pref = (if pref = Flats then js ''Db'' else js ''C#'')) \<and>
   (normalizeMinorToken n \<in> {js ''d#'', js ''eb''} \<longrightarrow>
      relativeMajorFromMinor n pref = (if pref = Flats then js ''Gb'' else js ''F#'')) \<and>
   (normalizeMinorToken n \<in> {js ''g#'', js ''ab''} \<longrightarrow>
      relativeMajorFromMinor n pref = (if pref = Flats then js ''Cb'' else js ''B'')) \<and>
   (normalizeMinorToken n \<notin> set BOUNDARY_MINORS \<longrightarrow>
      MINOR_REL_MAJOR (normalizeMinorToken n) = Some v \<longrightarrow>
      relativeMajorFromMinor n pref = v)"
  using boundary_names_differ
  by (auto simp: relativeMajorFromMinor_def BOUNDARY_MINORS_def Let_def)

theorem relativeMajorFromMinor_boundary_witness:
  "relativeMajorFromMinor (js ''bb / a#'') Auto = js ''C#'' \<and>
   relativeMajorFromMinor (js ''d#'') Flats = js ''Gb'' \<and>
   relativeMajorFromMinor (js ''Ab'') Sharps = js ''B'' \<and>
   relativeMajorFromMinor (js ''f#'') Flats = js ''A''"
  using relativeMajorFromMinor_boundary [of "js ''bb / a#''" Auto]
    relativeMajorFromMinor_boundary [of "js ''d#''" Flats]
    relativeMajorFromMinor_boundary [of "js ''Ab''" Sharps]
    relativeMajorFromMinor_boundary [of "js ''f#''" Flats "js ''A''"]
    normalizeMinorToken_examples MINOR_REL_MAJOR_examples not_boundary_examples
  by simp

text \<open>
  Claim C10. \<open>relativeMajorFromMinor\<close> always returns a key name: when the normalized
  minor token is neither one of the six boundary names nor a key of the table, the
  result is the default \<open>C\<close>.
\<close>

theorem relativeMajorFromMinor_fallback:
  assumes "normalizeMinorToken n \<notin> set BOUNDARY_MINORS"
    and "MINOR_REL_MAJOR (normalizeMinorToken n) = None"
  shows "relativeMajorFromMinor n pref = js ''C''"
  using assms by (auto simp: relativeMajorFromMinor_def BOUNDARY_MINORS_def Let_def)

theorem relativeMajorFromMinor_fallback_witness:
  "relativeMajorFromMinor (js ''h'') Sharps = js ''C''"
  using relativeMajorFromMinor_fallback [of "js ''h''" Sharps]
    normalizeMinorToken_examples MINOR_REL_MAJOR_examples not_boundary_examples
  by simp

section \<open>Diatonic chords\<close>

lemma length7E:
  assumes "length (xs :: 'a list) = 7"
  obtains s0 s1 s2 s3 s4 s5 s6 where "xs = [s0, s1, s2, s3, s4, s5, s6]"
proof -
  from assms obtain s0 r0 where "xs = s0 # r0" "length r0 = 6" by (cases xs) auto
  moreover then obtain s1 r1 where "r0 = s1 # r1" "length r1 = 5" by (cases r0) auto
  moreover then obtain s2 r2 where "r1 = s2 # r2" "length r2 = 4" by (cases r1) auto
  moreover then obtain s3 r3 where "r2 = s3 # r3" "length r3 = 3" by (cases r2) auto
  moreover then obtain s4 r4 where "r3 = s4 # r4" "length r4 = 2" by (cases r3) auto
  moreover then obtain s5 r5 where "r4 = s5 # r5" "length r5 = 1" by (cases r4) auto
  moreover then obtain s6 where "r5 = [s6]" by (cases r5) auto
  ultimately show thesis using that by simp
qed

lemma upt7: "[0..<7] = [0, 1, 2, 3, 4, 5, 6]"
  by (simp add: upt_rec)

lemma less7: "i < (7::nat) \<longleftrightarrow> i = 0 \<or> i = 1 \<or> i = 2 \<or> i = 3 \<or> i = 4 \<or> i = 5 \<or> i = 6"
  by arith

lemma triads7:
  "diatonicTriads [s0, s1, s2, s3, s4, s5, s6] mode =
     (let rnl = (if mode = Minor then RN_MINOR else RN_MAJOR) in
     [\<lparr>rn = Str (rnl ! 0), tones = [s0, s2, s4]\<rparr>,
      \<lparr>rn = Str (rnl ! 1), tones = [s1, s3, s5]\<rparr>,
      \<lparr>rn = Str (rnl ! 2), tones = [s2, s4, s6]\<rparr>,
      \<lparr>rn = Str (rnl ! 3), tones = [s3, s5, s0]\<rparr>,
      \<lparr>rn = Str (rnl ! 4), tones = [s4, s6, s1]\<rparr>,
      \<lparr>rn = Str (rnl ! 5), tones = [s5, s0, s2]\<rparr>,
      \<lparr>rn = Str (rnl ! 6), tones = [s6, s1, s3]\<rparr>])"
  by (simp add: diatonicTriads_def upt7 valAt_def strAt_def js_rem_def RN_MINOR_def RN_MAJOR_def Let_def)

lemma sevenths7:
  "map tones (diatonicSevenths [s0, s1, s2, s3, s4, s5, s6] mode) =
     [[s0, s2, s4, s6], [s1, s3, s5, s0], [s2, s4, s6, s1], [s3, s5, s0, s2],
      [s4, s6, s1, s3], [s5, s0, s2, s4], [s6, s1, s3, s5]]"
  by (simp add: diatonicSevenths_def valAt_def js_rem_def Let_def)

text \<open>
  Claim C3. On a scale of 7 notes, \<open>diatonicTriads\<close> returns 7 chords, chord \<open>i\<close> with the
  tones at the degrees \<open>i\<close>, \<open>i+2\<close>, \<open>i+4\<close> modulo 7, labelled I, ii, iii, IV, V, vi,
  vii\<degree> in major and i, ii\<degree>, III+, iv, V, VI, vii\<degree> in harmonic minor;
  \<open>diatonicSevenths\<close> returns 7 chords with the tones at the degrees \<open>i\<close>, \<open>i+2\<close>,
  \<open>i+4\<close>, \<open>i+6\<close> modulo 7 and the literal labels of the source (\<open>degree_sign\<close> is
  U+00B0, \<open>o_slash\<close> is U+00F8).
\<close>

theorem diatonic_chords_spec:
  assumes "length scale = 7"
  shows "length (diatonicTriads scale mode) = 7 \<and>
    (\<forall>i<7. tones (diatonicTriads scale mode ! i) =
              [scale ! i, scale ! ((i + 2) mod 7), scale ! ((i + 4) mod 7)]) \<and>
    map rn (diatonicTriads scale Major) =
      map Str [js ''I'', js ''ii'', js ''iii'', js ''IV'', js ''V'', js ''vi'',
               js ''vii'' @ [degree_sign]] \<and>
    map rn (diatonicTriads scale Minor) =
      map Str [js ''i'', js ''ii'' @ [degree_sign], js ''III+'', js ''iv'', js ''V'', js ''VI'',
               js ''vii'' @ [degree_sign]] \<and>
    length (diatonicSevenths scale mode) = 7 \<and>
    (\<forall>i<7. tones (diatonicSevenths scale mode ! i) =
              [scale ! i, scale ! ((i + 2) mod 7), scale ! ((i + 4) mod 7),
               scale ! ((i + 6) mod 7)]) \<and>
    map rn (diatonicSevenths scale Major) =
      map Str [js ''Imaj7'', js ''ii7'', js ''iii7'', js ''IVmaj7'', js ''V7'', js ''vi7'',
               js ''vii'' @ [o_slash] @ js ''7''] \<and>
    map rn (diatonicSevenths scale Minor) =
      map Str [js ''i mMaj7'', js ''ii'' @ [o_slash] @ js ''7'', js ''III+maj7'', js ''iv7'',
               js ''V7'', js ''VImaj7'', js ''vii'' @ [degree_sign] @ js ''7'']"
proof -
  from assms obtain s0 s1 s2 s3 s4 s5 s6 where sc: "scale = [s0, s1, s2, s3, s4, s5, s6]"
    by (rule length7E)
  have t: "map tones (diatonicSevenths scale mode) =
     [[s0, s2, s4, s6], [s1, s3, s5, s0], [s2, s4, s6, s1], [s3, s5, s0, s2],
      [s4, s6, s1, s3], [s5, s0, s2, s4], [s6, s1, s3, s5]]"
    unfolding sc by (rule sevenths7)
  have l7: "length (diatonicSevenths scale mode) = 7"
    using arg_cong [OF t, of length] by simp
  have a: "length (diatonicTriads scale mode) = 7"
    unfolding sc triads7 by (simp add: Let_def)
  have b: "\<forall>i<7. tones (diatonicTriads scale mode ! i) =
              [scale ! i, scale ! ((i + 2) mod 7), scale ! ((i + 4) mod 7)]"
    unfolding sc triads7 less7 by (simp add: Let_def)
  have c: "map rn (diatonicTriads scale Major) =
      map Str [js ''I'', js ''ii'', js ''iii'', js ''IV'', js ''V'', js ''vi'',
               js ''vii'' @ [degree_sign]]"
    unfolding sc triads7 by (simp add: RN_MAJOR_def)
  have d: "map rn (diatonicTriads scale Minor) =
      map Str [js ''i'', js ''ii'' @ [degree_sign], js ''III+'', js ''iv'', js ''V'', js ''VI'',
               js ''vii'' @ [degree_sign]]"
    unfolding sc triads7 by (simp add: RN_MINOR_def)
  have e: "\<forall>i<7. tones (diatonicSevenths scale mode ! i) =
              [scale ! i, scale ! ((i + 2) mod 7), scale ! ((i + 4) mod 7),
               scale ! ((i + 6) mod 7)]"
  proof (intro allI impI)
    fix i :: nat assume i: "i < 7"
    then have "tones (diatonicSevenths scale mode ! i) = map tones (diatonicSevenths scale mode) ! i"
      using l7 by simp
    also have "\<dots> = [scale ! i, scale ! ((i + 2) mod 7), scale ! ((i + 4) mod 7),
               scale ! ((i + 6) mod 7)]"
      using i unfolding sc sevenths7 less7 by auto
    finally show "tones (diatonicSevenths scale mode ! i) =
              [scale ! i, scale ! ((i + 2) mod 7), scale ! ((i + 4) mod 7),
               scale ! ((i + 6) mod 7)]" .
  qed
  have f: "map rn (diatonicSevenths scale Major) =
      map Str [js ''Imaj7'', js ''ii7'', js ''iii7'', js ''IVmaj7'', js ''V7'', js ''vi7'',
               js ''vii'' @ [o_slash] @ js ''7'']"
    by (simp add: diatonicSevenths_def Let_def)
  have g: "map rn (diatonicSevenths scale Minor) =
      map Str [js ''i mMaj7'', js ''ii'' @ [o_slash] @ js ''7'', js ''III+maj7'', js ''iv7'',
               js ''V7'', js ''VImaj7'', js ''vii'' @ [degree_sign] @ js ''7'']"
    by (simp add: diatonicSevenths_def Let_def)
  from a b c d l7 e f g show ?thesis by blast
qed

theorem diatonic_chords_spec_witness:
  "length (map (Str \<circ> js) [''C'', ''D'', ''E'', ''F'', ''G'', ''A'', ''B'']) = 7 \<and>
   length (diatonicTriads (map (Str \<circ> js) [''C'', ''D'', ''E'', ''F'', ''G'', ''A'', ''B'']) Major) = 7 \<and>
   tones (diatonicTriads (map (Str \<circ> js) [''C'', ''D'', ''E'', ''F'', ''G'', ''A'', ''B'']) Major ! 4) =
     map (Str \<circ> js) [''G'', ''B'', ''D''] \<and>
   tones (diatonicSevenths (map (Str \<circ> js) [''C'', ''D'', ''E'', ''F'', ''G'', ''A'', ''B'']) Minor ! 6) =
     map (Str \<circ> js) [''B'', ''D'', ''F'', ''A'']"
proof -
  let ?sc = "map (Str \<circ> js) [''C'', ''D'', ''E'', ''F'', ''G'', ''A'', ''B'']"
  have len: "length ?sc = 7" by simp
  note spec = diatonic_chords_spec [OF len]
  have n: "length (diatonicTriads ?sc Major) = 7"
    using spec [of Major] by (rule conjunct1)
  have t: "\<forall>i<7. tones (diatonicTriads ?sc Major ! i) =
              [?sc ! i, ?sc ! ((i + 2) mod 7), ?sc ! ((i + 4) mod 7)]"
    using spec [of Major] by (elim conjE)
  have u: "\<forall>i<7. tones (diatonicSevenths ?sc Minor ! i) =
              [?sc ! i, ?sc ! ((i + 2) mod 7), ?sc ! ((i + 4) mod 7), ?sc ! ((i + 6) mod 7)]"
    using spec [of Minor] by (elim conjE)
  have t4: "tones (diatonicTriads ?sc Major ! 4) = [?sc ! 4, ?sc ! ((4 + 2) mod 7), ?sc ! ((4 + 4) mod 7)]"
    using t by (elim allE [of _ 4]) simp
  have u6: "tones (diatonicSevenths ?sc Minor ! 6) =
      [?sc ! 6, ?sc ! ((6 + 2) mod 7), ?sc ! ((6 + 4) mod 7), ?sc ! ((6 + 6) mod 7)]"
    using u by (elim allE [of _ 6]) simp
  have t4': "tones (diatonicTriads ?sc Major ! 4) = map (Str \<circ> js) [''G'', ''B'', ''D'']"
    unfolding t4 by simp
  have u6': "tones (diatonicSevenths ?sc Minor ! 6) = map (Str \<circ> js) [''B'', ''D'', ''F'', ''A'']"
    unfolding u6 by simp
  from len n t4' u6' show ?thesis by (intro conjI)
qed

section \<open>Rendering and normalizing\<close>

lemma in_products:
  "a \<in> set A \<Longrightarrow> r \<in> set R \<Longrightarrow> a @ r \<in> set (concat (map (\<lambda>L. map (\<lambda>r. L @ r) R) A))"
  by auto

lemma canonical_enumerated:
  assumes "canonical s"
  shows "s \<in> set CANONICAL_SPELLINGS"
proof -
  from assms have "take 1 s \<in> set LETTERS" "drop 1 s \<in> set RUNS"
    by (simp_all add: canonical_def)
  then have "take 1 s @ drop 1 s \<in> set CANONICAL_SPELLINGS"
    unfolding CANONICAL_SPELLINGS_def by (rule in_products)
  then show ?thesis by (simp only: append_take_drop_id)
qed

lemma roundtrip_all:
  "\<forall>s \<in> set CANONICAL_SPELLINGS. normalizeToken (pretty s) = s"
  by code_simp

text \<open>
  Rendering, normalizing and rendering again does not give the ASCII spelling back: the
  result is a display string. For \<open>C#\<close> it is C followed by the sharp glyph.
\<close>

theorem pretty_normalize_roundtrip_counterexample:
  "pretty (normalizeToken (pretty (js ''C#''))) \<noteq> js ''C#''"
  by code_simp

text \<open>
  Claim C9, as amended. For every canonical spelling \<open>s\<close> (a letter A to G with the
  run empty, \<open>#\<close>, \<open>##\<close>, \<open>b\<close> or \<open>bb\<close>), normalizing the rendering of \<open>s\<close> gives
  \<open>s\<close> back, so rendering, normalizing and rendering again gives the rendering of
  \<open>s\<close>.
\<close>

theorem pretty_normalize_roundtrip:
  assumes "canonical s"
  shows "normalizeToken (pretty s) = s \<and> pretty (normalizeToken (pretty s)) = pretty s"
proof -
  from roundtrip_all canonical_enumerated [OF assms]
  have "normalizeToken (pretty s) = s" by blast
  then show ?thesis by simp
qed

lemma canonical_example: "canonical (js ''Bbb'')" "canonical (js ''F##'')"
  by code_simp+

lemma pretty_example: "pretty (js ''Bbb'') = js ''B'' @ glyph_dflat" "pretty (js ''F##'') = js ''F'' @ glyph_dsharp"
  by code_simp+

theorem pretty_normalize_roundtrip_witness:
  "canonical (js ''Bbb'') \<and> normalizeToken (js ''B'' @ glyph_dflat) = js ''Bbb'' \<and>
   pretty (normalizeToken (js ''B'' @ glyph_dflat)) = js ''B'' @ glyph_dflat"
  using pretty_normalize_roundtrip [OF canonical_example(1)] canonical_example(1)
  by (simp only: pretty_example)

section \<open>Shape of the built scales\<close>

lemma LETTERS_units: "LETTERS = [[67], [68], [69], [70], [71], [65], [66]]"
  by (simp add: LETTERS_def js_def)

lemma letter_cases:
  assumes "l \<in> set LETTERS"
  obtains "l = [67]" | "l = [68]" | "l = [69]" | "l = [70]" | "l = [71]" | "l = [65]" | "l = [66]"
  using assms unfolding LETTERS_units by auto

lemma walkLetters_cycle:
  assumes "l \<in> set LETTERS"
  shows "walkLetters (indexOf LETTERS l) = map Str (cycleFrom l)"
  using assms
  by (rule letter_cases)
     (simp_all add: walkLetters_def indexOf_def cycleFrom_def LETTERS_units upt7 strAt_def js_rem_def)

lemma cycleFrom_length:
  assumes "l \<in> set LETTERS"
  shows "length (cycleFrom l) = 7"
  using assms by (rule letter_cases) (simp_all add: cycleFrom_def LETTERS_units)

lemma cycleFrom_distinct:
  assumes "l \<in> set LETTERS"
  shows "distinct (cycleFrom l)"
  using assms by (rule letter_cases) (simp_all add: cycleFrom_def LETTERS_units)

lemma cycleFrom_set:
  assumes "l \<in> set LETTERS"
  shows "set (cycleFrom l) = set LETTERS"
  using assms by (rule letter_cases) (auto simp add: cycleFrom_def LETTERS_units)

lemma cycleFrom_first:
  assumes "l \<in> set LETTERS"
  shows "take 1 (cycleFrom l) = [l]"
  using assms by (rule letter_cases) (simp_all add: cycleFrom_def LETTERS_units)

lemma cycleFrom_rotate:
  assumes "l \<in> set LETTERS"
  shows "\<exists>n. cycleFrom l = rotate n LETTERS"
proof -
  have "cycleFrom l \<in> set (map (\<lambda>n. rotate n LETTERS) [0, 1, 2, 3, 4, 5, 6])"
    using assms by (rule letter_cases) (simp_all add: cycleFrom_def LETTERS_units rotate_def eval_nat_numeral)
  then obtain n where "cycleFrom l = rotate n LETTERS"
    unfolding set_map by (elim imageE)
  then show ?thesis ..
qed

lemma update_head: "xs \<noteq> [] \<Longrightarrow> (map f xs)[0 := v] = v # map f (drop 1 xs)"
  by (cases xs) simp_all

lemma majorScale_shape:
  assumes "normalizeToken t = c # rest" and "[c] \<in> set LETTERS"
  shows "majorScale t =
    Str (c # rest) # map (\<lambda>L. Str (applySignature L (signatureForMajorName (c # rest)))) (drop 1 (cycleFrom [c]))"
proof -
  have ne: "cycleFrom [c] \<noteq> []"
    using cycleFrom_length [OF assms(2)] by auto
  show ?thesis
    by (simp add: majorScale_def assms(1) walkLetters_cycle [OF assms(2)] applySignatureVal_def
        comp_def Let_def update_head [OF ne])
qed

lemma minorScaleBeforeRaise_shape:
  assumes "normalizeMinorToken t = c # rest" and "toUpperCase [c] \<in> set LETTERS"
  shows "minorScaleBeforeRaise t pref =
    Inr (Str (toUpperCase [c] @ rest) #
         map (\<lambda>L. Str (applySignature L (signatureForMajorName (relativeMajorFromMinor t pref))))
             (drop 1 (cycleFrom (toUpperCase [c]))))"
proof -
  have ne: "cycleFrom (toUpperCase [c]) \<noteq> []"
    using cycleFrom_length [OF assms(2)] by auto
  show ?thesis
    by (simp add: minorScaleBeforeRaise_def assms(1) walkLetters_cycle [OF assms(2)] applySignatureVal_def
        comp_def Let_def update_head [OF ne])
qed

section \<open>Major scales\<close>

lemma applySignature_cases:
  "applySignature L sig = L \<or> applySignature L sig = L @ [hash] \<or> applySignature L sig = L @ [lower_b]"
  by (simp add: applySignature_def js_def hash_def lower_b_def)

lemma letter_single: "l \<in> set LETTERS \<Longrightarrow> \<exists>c. l = [c]"
  by (erule letter_cases) simp_all

lemma take_applySignature:
  assumes "l \<in> set LETTERS"
  shows "take (Suc 0) (applySignature l sig) = l"
  using letter_single [OF assms] applySignature_cases [of l sig] by auto

lemma major_keys_enumerated:
  assumes "k \<in> dom MAJOR_SIG_COUNTS"
  shows "k \<in> set (map js [''C'', ''G'', ''D'', ''A'', ''E'', ''B'', ''F#'', ''C#'',
                            ''F'', ''Bb'', ''Eb'', ''Ab'', ''Db'', ''Gb'', ''Cb''])"
  using assms unfolding MAJOR_SIG_COUNTS_def dom_map_of_conv_image_fst by auto

lemma major_keys_normal:
  "\<forall>k \<in> set (map js [''C'', ''G'', ''D'', ''A'', ''E'', ''B'', ''F#'', ''C#'',
                            ''F'', ''Bb'', ''Eb'', ''Ab'', ''Db'', ''Gb'', ''Cb'']).
     normalizeToken k = k \<and> take 1 k \<in> set LETTERS \<and> k \<noteq> []"
  by code_simp

lemma scale_shape_facts:
  fixes sig :: Sig
  assumes l: "l \<in> set LETTERS" and t: "take 1 t = l"
  defines "sc \<equiv> Str t # map (\<lambda>L. Str (applySignature L sig)) (drop 1 (cycleFrom l))"
  shows "length sc = 7" and "map letterOf sc = cycleFrom l"
    and "\<forall>i\<in>{1..<7}. sc ! i = Str (applySignature (cycleFrom l ! i) sig)"
proof -
  obtain l0 l1 l2 l3 l4 l5 l6 where cyc: "cycleFrom l = [l0, l1, l2, l3, l4, l5, l6]"
    using cycleFrom_length [OF l] by (rule length7E)
  have l0: "l0 = l" using cycleFrom_first [OF l] by (simp add: cyc)
  have "set (cycleFrom l) = set LETTERS" by (rule cycleFrom_set [OF l])
  then have mem: "l1 \<in> set LETTERS" "l2 \<in> set LETTERS" "l3 \<in> set LETTERS"
    "l4 \<in> set LETTERS" "l5 \<in> set LETTERS" "l6 \<in> set LETTERS"
    unfolding cyc by auto
  show "length sc = 7" by (simp add: sc_def cyc)
  show "map letterOf sc = cycleFrom l"
    using mem t by (simp add: sc_def cyc l0 take_applySignature)
  show "\<forall>i\<in>{1..<7}. sc ! i = Str (applySignature (cycleFrom l ! i) sig)"
  proof
    fix i :: nat assume "i \<in> {1..<7}"
    then have "i = 1 \<or> i = 2 \<or> i = 3 \<or> i = 4 \<or> i = 5 \<or> i = 6" by auto
    then show "sc ! i = Str (applySignature (cycleFrom l ! i) sig)"
      by (auto simp: sc_def cyc)
  qed
qed

lemma c_major_scale:
  "majorScale (js ''C'') = map (Str \<circ> js) [''C'', ''D'', ''E'', ''F'', ''G'', ''A'', ''B'']"
  by code_simp

lemma major_scale_table:
  "map majorScale
     (map js [''C'', ''G'', ''D'', ''A'', ''E'', ''B'', ''F#'', ''C#'',
             ''F'', ''Bb'', ''Eb'', ''Ab'', ''Db'', ''Gb'', ''Cb'']) =
   map (map (Str \<circ> js))
       [[''C'', ''D'', ''E'', ''F'', ''G'', ''A'', ''B''],
        [''G'', ''A'', ''B'', ''C'', ''D'', ''E'', ''F#''],
        [''D'', ''E'', ''F#'', ''G'', ''A'', ''B'', ''C#''],
        [''A'', ''B'', ''C#'', ''D'', ''E'', ''F#'', ''G#''],
        [''E'', ''F#'', ''G#'', ''A'', ''B'', ''C#'', ''D#''],
        [''B'', ''C#'', ''D#'', ''E'', ''F#'', ''G#'', ''A#''],
        [''F#'', ''G#'', ''A#'', ''B'', ''C#'', ''D#'', ''E#''],
        [''C#'', ''D#'', ''E#'', ''F#'', ''G#'', ''A#'', ''B#''],
        [''F'', ''G'', ''A'', ''Bb'', ''C'', ''D'', ''E''],
        [''Bb'', ''C'', ''D'', ''Eb'', ''F'', ''G'', ''A''],
        [''Eb'', ''F'', ''G'', ''Ab'', ''Bb'', ''C'', ''D''],
        [''Ab'', ''Bb'', ''C'', ''Db'', ''Eb'', ''F'', ''G''],
        [''Db'', ''Eb'', ''F'', ''Gb'', ''Ab'', ''Bb'', ''C''],
        [''Gb'', ''Ab'', ''Bb'', ''Cb'', ''Db'', ''Eb'', ''F''],
        [''Cb'', ''Db'', ''Eb'', ''Fb'', ''Gb'', ''Ab'', ''Bb'']]"
  by code_simp

text \<open>
  Claim C1. For every major key name \<open>k\<close> of the signature table,
  \<open>buildScaleFromKeyName k Major pref\<close> returns 7 spellings whose letters are the 7
  distinct natural letters in cyclic order starting at the letter of \<open>k\<close>; entry 0 is
  the normalized tonic and every other entry is its letter with the signature of \<open>k\<close>
  applied. The last conjunct gives the resulting scale of each of the 15 keys, accidentals
  included; for \<open>C\<close> the scale is C, D, E, F, G, A, B under every preference.
\<close>

theorem buildScale_major_spec:
  "(k \<in> dom MAJOR_SIG_COUNTS \<longrightarrow>
     (\<exists>sc. buildScaleFromKeyName k Major pref = Inr sc \<and> length sc = 7 \<and>
        map letterOf sc = cycleFrom (take 1 k) \<and>
        take 1 (cycleFrom (take 1 k)) = [take 1 k] \<and>
        (\<exists>n. cycleFrom (take 1 k) = rotate n LETTERS) \<and>
        distinct (map letterOf sc) \<and> set (map letterOf sc) = set LETTERS \<and>
        sc ! 0 = Str (normalizeToken k) \<and>
        (\<forall>i\<in>{1..<7}. sc ! i =
            Str (applySignature (cycleFrom (take 1 k) ! i) (signatureForMajorName k))))) \<and>
   buildScaleFromKeyName (js ''C'') Major pref =
     Inr (map (Str \<circ> js) [''C'', ''D'', ''E'', ''F'', ''G'', ''A'', ''B'']) \<and>
   map (\<lambda>k. buildScaleFromKeyName k Major pref)
     (map js [''C'', ''G'', ''D'', ''A'', ''E'', ''B'', ''F#'', ''C#'',
             ''F'', ''Bb'', ''Eb'', ''Ab'', ''Db'', ''Gb'', ''Cb'']) =
   map (\<lambda>sc. Inr (map (Str \<circ> js) sc))
       [[''C'', ''D'', ''E'', ''F'', ''G'', ''A'', ''B''],
        [''G'', ''A'', ''B'', ''C'', ''D'', ''E'', ''F#''],
        [''D'', ''E'', ''F#'', ''G'', ''A'', ''B'', ''C#''],
        [''A'', ''B'', ''C#'', ''D'', ''E'', ''F#'', ''G#''],
        [''E'', ''F#'', ''G#'', ''A'', ''B'', ''C#'', ''D#''],
        [''B'', ''C#'', ''D#'', ''E'', ''F#'', ''G#'', ''A#''],
        [''F#'', ''G#'', ''A#'', ''B'', ''C#'', ''D#'', ''E#''],
        [''C#'', ''D#'', ''E#'', ''F#'', ''G#'', ''A#'', ''B#''],
        [''F'', ''G'', ''A'', ''Bb'', ''C'', ''D'', ''E''],
        [''Bb'', ''C'', ''D'', ''Eb'', ''F'', ''G'', ''A''],
        [''Eb'', ''F'', ''G'', ''Ab'', ''Bb'', ''C'', ''D''],
        [''Ab'', ''Bb'', ''C'', ''Db'', ''Eb'', ''F'', ''G''],
        [''Db'', ''Eb'', ''F'', ''Gb'', ''Ab'', ''Bb'', ''C''],
        [''Gb'', ''Ab'', ''Bb'', ''Cb'', ''Db'', ''Eb'', ''F''],
        [''Cb'', ''Db'', ''Eb'', ''Fb'', ''Gb'', ''Ab'', ''Bb'']]"
proof (intro conjI impI)
  show "buildScaleFromKeyName (js ''C'') Major pref =
     Inr (map (Str \<circ> js) [''C'', ''D'', ''E'', ''F'', ''G'', ''A'', ''B''])"
    unfolding buildScaleFromKeyName_def c_major_scale by simp
next
  have "map (\<lambda>k. buildScaleFromKeyName k Major pref)
     (map js [''C'', ''G'', ''D'', ''A'', ''E'', ''B'', ''F#'', ''C#'',
             ''F'', ''Bb'', ''Eb'', ''Ab'', ''Db'', ''Gb'', ''Cb'']) =
    map Inr (map majorScale
     (map js [''C'', ''G'', ''D'', ''A'', ''E'', ''B'', ''F#'', ''C#'',
             ''F'', ''Bb'', ''Eb'', ''Ab'', ''Db'', ''Gb'', ''Cb'']))"
    by (simp add: buildScaleFromKeyName_def)
  also have "\<dots> = map (\<lambda>sc. Inr (map (Str \<circ> js) sc))
       [[''C'', ''D'', ''E'', ''F'', ''G'', ''A'', ''B''],
        [''G'', ''A'', ''B'', ''C'', ''D'', ''E'', ''F#''],
        [''D'', ''E'', ''F#'', ''G'', ''A'', ''B'', ''C#''],
        [''A'', ''B'', ''C#'', ''D'', ''E'', ''F#'', ''G#''],
        [''E'', ''F#'', ''G#'', ''A'', ''B'', ''C#'', ''D#''],
        [''B'', ''C#'', ''D#'', ''E'', ''F#'', ''G#'', ''A#''],
        [''F#'', ''G#'', ''A#'', ''B'', ''C#'', ''D#'', ''E#''],
        [''C#'', ''D#'', ''E#'', ''F#'', ''G#'', ''A#'', ''B#''],
        [''F'', ''G'', ''A'', ''Bb'', ''C'', ''D'', ''E''],
        [''Bb'', ''C'', ''D'', ''Eb'', ''F'', ''G'', ''A''],
        [''Eb'', ''F'', ''G'', ''Ab'', ''Bb'', ''C'', ''D''],
        [''Ab'', ''Bb'', ''C'', ''Db'', ''Eb'', ''F'', ''G''],
        [''Db'', ''Eb'', ''F'', ''Gb'', ''Ab'', ''Bb'', ''C''],
        [''Gb'', ''Ab'', ''Bb'', ''Cb'', ''Db'', ''Eb'', ''F''],
        [''Cb'', ''Db'', ''Eb'', ''Fb'', ''Gb'', ''Ab'', ''Bb'']]"
    unfolding major_scale_table by simp
  finally show "map (\<lambda>k. buildScaleFromKeyName k Major pref)
     (map js [''C'', ''G'', ''D'', ''A'', ''E'', ''B'', ''F#'', ''C#'',
             ''F'', ''Bb'', ''Eb'', ''Ab'', ''Db'', ''Gb'', ''Cb'']) =
   map (\<lambda>sc. Inr (map (Str \<circ> js) sc))
       [[''C'', ''D'', ''E'', ''F'', ''G'', ''A'', ''B''],
        [''G'', ''A'', ''B'', ''C'', ''D'', ''E'', ''F#''],
        [''D'', ''E'', ''F#'', ''G'', ''A'', ''B'', ''C#''],
        [''A'', ''B'', ''C#'', ''D'', ''E'', ''F#'', ''G#''],
        [''E'', ''F#'', ''G#'', ''A'', ''B'', ''C#'', ''D#''],
        [''B'', ''C#'', ''D#'', ''E'', ''F#'', ''G#'', ''A#''],
        [''F#'', ''G#'', ''A#'', ''B'', ''C#'', ''D#'', ''E#''],
        [''C#'', ''D#'', ''E#'', ''F#'', ''G#'', ''A#'', ''B#''],
        [''F'', ''G'', ''A'', ''Bb'', ''C'', ''D'', ''E''],
        [''Bb'', ''C'', ''D'', ''Eb'', ''F'', ''G'', ''A''],
        [''Eb'', ''F'', ''G'', ''Ab'', ''Bb'', ''C'', ''D''],
        [''Ab'', ''Bb'', ''C'', ''Db'', ''Eb'', ''F'', ''G''],
        [''Db'', ''Eb'', ''F'', ''Gb'', ''Ab'', ''Bb'', ''C''],
        [''Gb'', ''Ab'', ''Bb'', ''Cb'', ''Db'', ''Eb'', ''F''],
        [''Cb'', ''Db'', ''Eb'', ''Fb'', ''Gb'', ''Ab'', ''Bb'']]" .
next
  assume "k \<in> dom MAJOR_SIG_COUNTS"
  from major_keys_enumerated [OF this] major_keys_normal
  have nk: "normalizeToken k = k" and l: "take 1 k \<in> set LETTERS" and ne: "k \<noteq> []"
    by blast+
  from ne obtain c rest where k: "k = c # rest" by (cases k) auto
  let ?l = "take 1 k"
  let ?sig = "signatureForMajorName k"
  let ?sc = "Str k # map (\<lambda>L. Str (applySignature L ?sig)) (drop 1 (cycleFrom ?l))"
  have lc: "?l = [c]" by (simp add: k)
  have "majorScale k = ?sc"
    using majorScale_shape [of k c rest] nk l by (simp add: k)
  then have b: "buildScaleFromKeyName k Major pref = Inr ?sc"
    by (simp add: buildScaleFromKeyName_def)
  note f = scale_shape_facts [OF l refl, of ?sig]
  have d: "distinct (map letterOf ?sc)" "set (map letterOf ?sc) = set LETTERS"
    unfolding f(2) by (rule cycleFrom_distinct [OF l], rule cycleFrom_set [OF l])
  have z: "?sc ! 0 = Str (normalizeToken k)" by (simp add: nk)
  from b f d z cycleFrom_first [OF l] cycleFrom_rotate [OF l]
  show "\<exists>sc. buildScaleFromKeyName k Major pref = Inr sc \<and> length sc = 7 \<and>
        map letterOf sc = cycleFrom (take 1 k) \<and>
        take 1 (cycleFrom (take 1 k)) = [take 1 k] \<and>
        (\<exists>n. cycleFrom (take 1 k) = rotate n LETTERS) \<and>
        distinct (map letterOf sc) \<and> set (map letterOf sc) = set LETTERS \<and>
        sc ! 0 = Str (normalizeToken k) \<and>
        (\<forall>i\<in>{1..<7}. sc ! i =
            Str (applySignature (cycleFrom (take 1 k) ! i) (signatureForMajorName k)))"
    by (intro exI [of _ ?sc] conjI)
qed

lemma gb_key: "js ''Gb'' \<in> dom MAJOR_SIG_COUNTS" "normalizeToken (js ''Gb'') = js ''Gb''"
  by code_simp+

theorem buildScale_major_spec_witness:
  "js ''Gb'' \<in> dom MAJOR_SIG_COUNTS \<and>
   (\<exists>sc. buildScaleFromKeyName (js ''Gb'') Major Flats = Inr sc \<and> length sc = 7 \<and>
      sc ! 0 = Str (js ''Gb'')) \<and>
   buildScaleFromKeyName (js ''G'') Major Flats =
     Inr (map (Str \<circ> js) [''G'', ''A'', ''B'', ''C'', ''D'', ''E'', ''F#'']) \<and>
   buildScaleFromKeyName (js ''Gb'') Major Flats =
     Inr (map (Str \<circ> js) [''Gb'', ''Ab'', ''Bb'', ''Cb'', ''Db'', ''Eb'', ''F''])"
  using buildScale_major_spec [of "js ''Gb''" Flats] gb_key by auto

section \<open>The tonic names of the catalog\<close>

lemma resolve_auto:
  "resolveEnharmonic raw a Auto =
     (if 0 \<le> a then resolveEnharmonic raw a Sharps else resolveEnharmonic raw a Flats)"
  by (simp add: resolveEnharmonic_def Let_def split: list.splits)

lemma minor_tonic_in_catalog:
  assumes "p \<in> set POSITIONS"
  shows "tonicNameForSpelling p Minor pref \<in> set MINOR_TONICS"
  using assms by (cases pref) (auto simp: MINOR_TONICS_def tonicNameForSpelling_def resolve_auto)

lemma major_tonic_in_catalog:
  assumes "p \<in> set POSITIONS"
  shows "tonicNameForSpelling p Major pref \<in> set MAJOR_TONICS"
  using assms by (cases pref) (auto simp: MAJOR_TONICS_def tonicNameForSpelling_def resolve_auto)

lemma minor_tonics_enumerated:
  "set MINOR_TONICS = set (map js [''a'', ''e'', ''b'', ''f#'', ''c#'', ''g#'', ''d# / eb'', ''d#'',
     ''eb'', ''bb / a#'', ''bb'', ''a#'', ''f'', ''c'', ''g'', ''d''])"
  by code_simp

lemma major_tonics_enumerated:
  "set MAJOR_TONICS = set (map js [''C'', ''G'', ''D'', ''A'', ''E'', ''B'', ''F# / Gb'', ''F#'',
     ''Gb'', ''Db / C#'', ''Db'', ''C#'', ''Ab'', ''Eb'', ''Bb'', ''F''])"
  by code_simp

lemma minor_tonics_normalized:
  "map normalizeMinorToken (map js [''a'', ''e'', ''b'', ''f#'', ''c#'', ''g#'', ''d# / eb'', ''d#'',
     ''eb'', ''bb / a#'', ''bb'', ''a#'', ''f'', ''c'', ''g'', ''d'']) =
   map js [''a'', ''e'', ''b'', ''f#'', ''c#'', ''g#'', ''d#'', ''d#'',
     ''eb'', ''bb'', ''bb'', ''a#'', ''f'', ''c'', ''g'', ''d'']"
  by code_simp

lemma major_tonics_normalized:
  "map normalizeToken (map js [''C'', ''G'', ''D'', ''A'', ''E'', ''B'', ''F# / Gb'', ''F#'',
     ''Gb'', ''Db / C#'', ''Db'', ''C#'', ''Ab'', ''Eb'', ''Bb'', ''F'']) =
   map js [''C'', ''G'', ''D'', ''A'', ''E'', ''B'', ''F#'', ''F#'',
     ''Gb'', ''Db'', ''Db'', ''C#'', ''Ab'', ''Eb'', ''Bb'', ''F'']"
  by code_simp

lemma minor_normal_forms:
  "\<forall>n \<in> set (map js [''a'', ''e'', ''b'', ''f#'', ''c#'', ''g#'', ''d#'', ''d#'',
     ''eb'', ''bb'', ''bb'', ''a#'', ''f'', ''c'', ''g'', ''d'']).
     n \<noteq> [] \<and> toUpperCase (take 1 n) \<in> set LETTERS \<and> drop 1 n \<in> set RUNS"
  by code_simp

lemma major_normal_forms:
  "\<forall>n \<in> set (map js [''C'', ''G'', ''D'', ''A'', ''E'', ''B'', ''F#'', ''F#'',
     ''Gb'', ''Db'', ''Db'', ''C#'', ''Ab'', ''Eb'', ''Bb'', ''F'']).
     n \<noteq> [] \<and> take 1 n \<in> set LETTERS \<and> drop 1 n \<in> set RUNS"
  by code_simp

lemma minor_tonic_normal:
  assumes "t \<in> set MINOR_TONICS"
  shows "\<exists>c rest. normalizeMinorToken t = c # rest \<and> toUpperCase [c] \<in> set LETTERS \<and> rest \<in> set RUNS"
proof -
  from assms have "normalizeMinorToken t \<in> normalizeMinorToken ` set MINOR_TONICS" by (rule imageI)
  then have "normalizeMinorToken t \<in> set (map js [''a'', ''e'', ''b'', ''f#'', ''c#'', ''g#'', ''d#'', ''d#'',
     ''eb'', ''bb'', ''bb'', ''a#'', ''f'', ''c'', ''g'', ''d''])"
    unfolding minor_tonics_enumerated set_map [symmetric] minor_tonics_normalized .
  with minor_normal_forms
  have p: "normalizeMinorToken t \<noteq> []" "toUpperCase (take 1 (normalizeMinorToken t)) \<in> set LETTERS"
    "drop 1 (normalizeMinorToken t) \<in> set RUNS"
    by blast+
  then obtain c rest where "normalizeMinorToken t = c # rest" by (cases "normalizeMinorToken t") auto
  with p show ?thesis by simp
qed

lemma major_tonic_normal:
  assumes "t \<in> set MAJOR_TONICS"
  shows "\<exists>c rest. normalizeToken t = c # rest \<and> [c] \<in> set LETTERS \<and> rest \<in> set RUNS"
proof -
  from assms have "normalizeToken t \<in> normalizeToken ` set MAJOR_TONICS" by (rule imageI)
  then have "normalizeToken t \<in> set (map js [''C'', ''G'', ''D'', ''A'', ''E'', ''B'', ''F#'', ''F#'',
     ''Gb'', ''Db'', ''Db'', ''C#'', ''Ab'', ''Eb'', ''Bb'', ''F''])"
    unfolding major_tonics_enumerated set_map [symmetric] major_tonics_normalized .
  with major_normal_forms
  have p: "normalizeToken t \<noteq> []" "take 1 (normalizeToken t) \<in> set LETTERS"
    "drop 1 (normalizeToken t) \<in> set RUNS"
    by blast+
  then obtain c rest where "normalizeToken t = c # rest" by (cases "normalizeToken t") auto
  with p show ?thesis by simp
qed

section \<open>Harmonic minor scales\<close>

lemma raiseSeventh_7:
  "raiseSeventh [s0, s1, s2, s3, s4, s5, Str s6] = Inr [s0, s1, s2, s3, s4, s5, Str (raiseHalfStep s6)]"
  by (simp add: raiseSeventh_def valAt_def)

lemma a_minor_before: 
  "minorScaleBeforeRaise (js ''a'') Auto = Inr (map (Str \<circ> js) [''A'', ''B'', ''C'', ''D'', ''E'', ''F'', ''G''])"
  by code_simp

lemma a_minor_scale:
  "buildScaleFromKeyName (js ''a'') Minor Auto = Inr (map (Str \<circ> js) [''A'', ''B'', ''C'', ''D'', ''E'', ''F'', ''G#''])"
  by code_simp

lemma minor_scale_general:
  assumes nm: "normalizeMinorToken t = c # rest" and l: "toUpperCase [c] \<in> set LETTERS"
  shows "buildScaleFromKeyName t Minor pref =
     Inr (Str (toUpperCase [c] @ rest) #
          map (\<lambda>x. Str (applySignature x (signatureForMajorName (relativeMajorFromMinor t pref))))
              (take 5 (drop 1 (cycleFrom (toUpperCase [c])))) @
          [Str (raiseHalfStep (applySignature (cycleFrom (toUpperCase [c]) ! 6)
                  (signatureForMajorName (relativeMajorFromMinor t pref))))])"
proof -
  obtain l0 l1 l2 l3 l4 l5 l6 where cyc: "cycleFrom (toUpperCase [c]) = [l0, l1, l2, l3, l4, l5, l6]"
    using cycleFrom_length [OF l] by (rule length7E)
  show ?thesis
    by (simp add: buildScaleFromKeyName_def minorScaleBeforeRaise_shape [OF nm l] cyc raiseSeventh_7)
qed

lemma relativeMajor_not_flats:
  "pref \<noteq> Flats \<Longrightarrow> relativeMajorFromMinor t pref = relativeMajorFromMinor t Sharps"
  by (simp add: relativeMajorFromMinor_def Let_def)

lemma buildScale_minor_not_flats:
  assumes "pref \<noteq> Flats"
  shows "buildScaleFromKeyName t Minor pref = buildScaleFromKeyName t Minor Sharps"
  unfolding buildScaleFromKeyName_def minorScaleBeforeRaise_def
    relativeMajor_not_flats [OF assms] ..

lemma minor_scale_table_sharps:
  "map (\<lambda>t. buildScaleFromKeyName t Minor Sharps)
     (map js [''a'', ''e'', ''b'', ''f#'', ''c#'', ''g#'', ''d# / eb'', ''d#'', ''eb'',
             ''bb / a#'', ''bb'', ''a#'', ''f'', ''c'', ''g'', ''d'']) =
   map (\<lambda>sc. Inr (map (Str \<circ> js) sc))
       [[''A'', ''B'', ''C'', ''D'', ''E'', ''F'', ''G#''],
        [''E'', ''F#'', ''G'', ''A'', ''B'', ''C'', ''D#''],
        [''B'', ''C#'', ''D'', ''E'', ''F#'', ''G'', ''A#''],
        [''F#'', ''G#'', ''A'', ''B'', ''C#'', ''D'', ''E#''],
        [''C#'', ''D#'', ''E'', ''F#'', ''G#'', ''A'', ''B#''],
        [''G#'', ''A#'', ''B'', ''C#'', ''D#'', ''E'', ''F##''],
        [''D#'', ''E#'', ''F#'', ''G#'', ''A#'', ''B'', ''C##''],
        [''D#'', ''E#'', ''F#'', ''G#'', ''A#'', ''B'', ''C##''],
        [''Eb'', ''F#'', ''G#'', ''A#'', ''B'', ''C#'', ''D##''],
        [''Bb'', ''C#'', ''D#'', ''E#'', ''F#'', ''G#'', ''A##''],
        [''Bb'', ''C#'', ''D#'', ''E#'', ''F#'', ''G#'', ''A##''],
        [''A#'', ''B#'', ''C#'', ''D#'', ''E#'', ''F#'', ''G##''],
        [''F'', ''G'', ''Ab'', ''Bb'', ''C'', ''Db'', ''E''],
        [''C'', ''D'', ''Eb'', ''F'', ''G'', ''Ab'', ''B''],
        [''G'', ''A'', ''Bb'', ''C'', ''D'', ''Eb'', ''F#''],
        [''D'', ''E'', ''F'', ''G'', ''A'', ''Bb'', ''C#'']]"
  by code_simp

lemma minor_scale_table_flats:
  "map (\<lambda>t. buildScaleFromKeyName t Minor Flats)
     (map js [''a'', ''e'', ''b'', ''f#'', ''c#'', ''g#'', ''d# / eb'', ''d#'', ''eb'',
             ''bb / a#'', ''bb'', ''a#'', ''f'', ''c'', ''g'', ''d'']) =
   map (\<lambda>sc. Inr (map (Str \<circ> js) sc))
       [[''A'', ''B'', ''C'', ''D'', ''E'', ''F'', ''G#''],
        [''E'', ''F#'', ''G'', ''A'', ''B'', ''C'', ''D#''],
        [''B'', ''C#'', ''D'', ''E'', ''F#'', ''G'', ''A#''],
        [''F#'', ''G#'', ''A'', ''B'', ''C#'', ''D'', ''E#''],
        [''C#'', ''D#'', ''E'', ''F#'', ''G#'', ''A'', ''B#''],
        [''G#'', ''Ab'', ''Bb'', ''Cb'', ''Db'', ''Eb'', ''F''],
        [''D#'', ''Eb'', ''F'', ''Gb'', ''Ab'', ''Bb'', ''C''],
        [''D#'', ''Eb'', ''F'', ''Gb'', ''Ab'', ''Bb'', ''C''],
        [''Eb'', ''F'', ''Gb'', ''Ab'', ''Bb'', ''Cb'', ''D''],
        [''Bb'', ''C'', ''Db'', ''Eb'', ''F'', ''Gb'', ''A''],
        [''Bb'', ''C'', ''Db'', ''Eb'', ''F'', ''Gb'', ''A''],
        [''A#'', ''Bb'', ''C'', ''Db'', ''Eb'', ''F'', ''G''],
        [''F'', ''G'', ''Ab'', ''Bb'', ''C'', ''Db'', ''E''],
        [''C'', ''D'', ''Eb'', ''F'', ''G'', ''Ab'', ''B''],
        [''G'', ''A'', ''Bb'', ''C'', ''D'', ''Eb'', ''F#''],
        [''D'', ''E'', ''F'', ''G'', ''A'', ''Bb'', ''C#'']]"
  by code_simp

text \<open>
  Claim C2. For every minor tonic name \<open>t\<close> of the catalog and every preference,
  \<open>buildScaleFromKeyName t Minor pref\<close> normalizes \<open>t\<close> as a minor token, takes the
  signature of the relative major, walks the 7 natural letters from the letter of the
  tonic applying the signature, puts the tonic's own spelling at index 0 and applies
  \<open>raiseHalfStep\<close> at index 6 only. For \<open>a\<close> under the automatic preference the scale
  before the raise is A, B, C, D, E, F, G and the result is A, B, C, D, E, F, G#. The
  last two conjuncts give the resulting scale of every minor tonic name of the catalog,
  accidentals included: one table for the sharps and automatic preferences, which the
  relative major does not tell apart, and one for the flats preference.
\<close>

theorem buildScale_minor_spec:
  "(t \<in> set MINOR_TONICS \<longrightarrow>
     (let nm = normalizeMinorToken t; L = toUpperCase (take 1 nm);
          sig = signatureForMajorName (relativeMajorFromMinor t pref); cyc = cycleFrom L
      in L \<in> set LETTERS \<and> length cyc = 7 \<and>
         buildScaleFromKeyName t Minor pref =
           Inr (Str (L @ drop 1 nm) #
                map (\<lambda>x. Str (applySignature x sig)) (take 5 (drop 1 cyc)) @
                [Str (raiseHalfStep (applySignature (cyc ! 6) sig))]))) \<and>
   minorScaleBeforeRaise (js ''a'') Auto =
     Inr (map (Str \<circ> js) [''A'', ''B'', ''C'', ''D'', ''E'', ''F'', ''G'']) \<and>
   buildScaleFromKeyName (js ''a'') Minor Auto =
     Inr (map (Str \<circ> js) [''A'', ''B'', ''C'', ''D'', ''E'', ''F'', ''G#'']) \<and>
   (pref \<noteq> Flats \<longrightarrow>
     map (\<lambda>t. buildScaleFromKeyName t Minor pref)
       (map js [''a'', ''e'', ''b'', ''f#'', ''c#'', ''g#'', ''d# / eb'', ''d#'', ''eb'',
             ''bb / a#'', ''bb'', ''a#'', ''f'', ''c'', ''g'', ''d'']) =
     map (\<lambda>sc. Inr (map (Str \<circ> js) sc))
       [[''A'', ''B'', ''C'', ''D'', ''E'', ''F'', ''G#''],
        [''E'', ''F#'', ''G'', ''A'', ''B'', ''C'', ''D#''],
        [''B'', ''C#'', ''D'', ''E'', ''F#'', ''G'', ''A#''],
        [''F#'', ''G#'', ''A'', ''B'', ''C#'', ''D'', ''E#''],
        [''C#'', ''D#'', ''E'', ''F#'', ''G#'', ''A'', ''B#''],
        [''G#'', ''A#'', ''B'', ''C#'', ''D#'', ''E'', ''F##''],
        [''D#'', ''E#'', ''F#'', ''G#'', ''A#'', ''B'', ''C##''],
        [''D#'', ''E#'', ''F#'', ''G#'', ''A#'', ''B'', ''C##''],
        [''Eb'', ''F#'', ''G#'', ''A#'', ''B'', ''C#'', ''D##''],
        [''Bb'', ''C#'', ''D#'', ''E#'', ''F#'', ''G#'', ''A##''],
        [''Bb'', ''C#'', ''D#'', ''E#'', ''F#'', ''G#'', ''A##''],
        [''A#'', ''B#'', ''C#'', ''D#'', ''E#'', ''F#'', ''G##''],
        [''F'', ''G'', ''Ab'', ''Bb'', ''C'', ''Db'', ''E''],
        [''C'', ''D'', ''Eb'', ''F'', ''G'', ''Ab'', ''B''],
        [''G'', ''A'', ''Bb'', ''C'', ''D'', ''Eb'', ''F#''],
        [''D'', ''E'', ''F'', ''G'', ''A'', ''Bb'', ''C#'']]) \<and>
   map (\<lambda>t. buildScaleFromKeyName t Minor Flats)
     (map js [''a'', ''e'', ''b'', ''f#'', ''c#'', ''g#'', ''d# / eb'', ''d#'', ''eb'',
             ''bb / a#'', ''bb'', ''a#'', ''f'', ''c'', ''g'', ''d'']) =
   map (\<lambda>sc. Inr (map (Str \<circ> js) sc))
       [[''A'', ''B'', ''C'', ''D'', ''E'', ''F'', ''G#''],
        [''E'', ''F#'', ''G'', ''A'', ''B'', ''C'', ''D#''],
        [''B'', ''C#'', ''D'', ''E'', ''F#'', ''G'', ''A#''],
        [''F#'', ''G#'', ''A'', ''B'', ''C#'', ''D'', ''E#''],
        [''C#'', ''D#'', ''E'', ''F#'', ''G#'', ''A'', ''B#''],
        [''G#'', ''Ab'', ''Bb'', ''Cb'', ''Db'', ''Eb'', ''F''],
        [''D#'', ''Eb'', ''F'', ''Gb'', ''Ab'', ''Bb'', ''C''],
        [''D#'', ''Eb'', ''F'', ''Gb'', ''Ab'', ''Bb'', ''C''],
        [''Eb'', ''F'', ''Gb'', ''Ab'', ''Bb'', ''Cb'', ''D''],
        [''Bb'', ''C'', ''Db'', ''Eb'', ''F'', ''Gb'', ''A''],
        [''Bb'', ''C'', ''Db'', ''Eb'', ''F'', ''Gb'', ''A''],
        [''A#'', ''Bb'', ''C'', ''Db'', ''Eb'', ''F'', ''G''],
        [''F'', ''G'', ''Ab'', ''Bb'', ''C'', ''Db'', ''E''],
        [''C'', ''D'', ''Eb'', ''F'', ''G'', ''Ab'', ''B''],
        [''G'', ''A'', ''Bb'', ''C'', ''D'', ''Eb'', ''F#''],
        [''D'', ''E'', ''F'', ''G'', ''A'', ''Bb'', ''C#'']]"
proof (intro conjI impI)
  assume nf: "pref \<noteq> Flats"
  show "map (\<lambda>t. buildScaleFromKeyName t Minor pref)
       (map js [''a'', ''e'', ''b'', ''f#'', ''c#'', ''g#'', ''d# / eb'', ''d#'', ''eb'',
             ''bb / a#'', ''bb'', ''a#'', ''f'', ''c'', ''g'', ''d'']) =
     map (\<lambda>sc. Inr (map (Str \<circ> js) sc))
       [[''A'', ''B'', ''C'', ''D'', ''E'', ''F'', ''G#''],
        [''E'', ''F#'', ''G'', ''A'', ''B'', ''C'', ''D#''],
        [''B'', ''C#'', ''D'', ''E'', ''F#'', ''G'', ''A#''],
        [''F#'', ''G#'', ''A'', ''B'', ''C#'', ''D'', ''E#''],
        [''C#'', ''D#'', ''E'', ''F#'', ''G#'', ''A'', ''B#''],
        [''G#'', ''A#'', ''B'', ''C#'', ''D#'', ''E'', ''F##''],
        [''D#'', ''E#'', ''F#'', ''G#'', ''A#'', ''B'', ''C##''],
        [''D#'', ''E#'', ''F#'', ''G#'', ''A#'', ''B'', ''C##''],
        [''Eb'', ''F#'', ''G#'', ''A#'', ''B'', ''C#'', ''D##''],
        [''Bb'', ''C#'', ''D#'', ''E#'', ''F#'', ''G#'', ''A##''],
        [''Bb'', ''C#'', ''D#'', ''E#'', ''F#'', ''G#'', ''A##''],
        [''A#'', ''B#'', ''C#'', ''D#'', ''E#'', ''F#'', ''G##''],
        [''F'', ''G'', ''Ab'', ''Bb'', ''C'', ''Db'', ''E''],
        [''C'', ''D'', ''Eb'', ''F'', ''G'', ''Ab'', ''B''],
        [''G'', ''A'', ''Bb'', ''C'', ''D'', ''Eb'', ''F#''],
        [''D'', ''E'', ''F'', ''G'', ''A'', ''Bb'', ''C#'']]"
    unfolding buildScale_minor_not_flats [OF nf] by (rule minor_scale_table_sharps)
next
  show "map (\<lambda>t. buildScaleFromKeyName t Minor Flats)
     (map js [''a'', ''e'', ''b'', ''f#'', ''c#'', ''g#'', ''d# / eb'', ''d#'', ''eb'',
             ''bb / a#'', ''bb'', ''a#'', ''f'', ''c'', ''g'', ''d'']) =
   map (\<lambda>sc. Inr (map (Str \<circ> js) sc))
       [[''A'', ''B'', ''C'', ''D'', ''E'', ''F'', ''G#''],
        [''E'', ''F#'', ''G'', ''A'', ''B'', ''C'', ''D#''],
        [''B'', ''C#'', ''D'', ''E'', ''F#'', ''G'', ''A#''],
        [''F#'', ''G#'', ''A'', ''B'', ''C#'', ''D'', ''E#''],
        [''C#'', ''D#'', ''E'', ''F#'', ''G#'', ''A'', ''B#''],
        [''G#'', ''Ab'', ''Bb'', ''Cb'', ''Db'', ''Eb'', ''F''],
        [''D#'', ''Eb'', ''F'', ''Gb'', ''Ab'', ''Bb'', ''C''],
        [''D#'', ''Eb'', ''F'', ''Gb'', ''Ab'', ''Bb'', ''C''],
        [''Eb'', ''F'', ''Gb'', ''Ab'', ''Bb'', ''Cb'', ''D''],
        [''Bb'', ''C'', ''Db'', ''Eb'', ''F'', ''Gb'', ''A''],
        [''Bb'', ''C'', ''Db'', ''Eb'', ''F'', ''Gb'', ''A''],
        [''A#'', ''Bb'', ''C'', ''Db'', ''Eb'', ''F'', ''G''],
        [''F'', ''G'', ''Ab'', ''Bb'', ''C'', ''Db'', ''E''],
        [''C'', ''D'', ''Eb'', ''F'', ''G'', ''Ab'', ''B''],
        [''G'', ''A'', ''Bb'', ''C'', ''D'', ''Eb'', ''F#''],
        [''D'', ''E'', ''F'', ''G'', ''A'', ''Bb'', ''C#'']]"
    by (rule minor_scale_table_flats)
next
  assume "t \<in> set MINOR_TONICS"
  from minor_tonic_normal [OF this] obtain c rest
    where nm: "normalizeMinorToken t = c # rest" and l: "toUpperCase [c] \<in> set LETTERS"
    by blast
  show "let nm = normalizeMinorToken t; L = toUpperCase (take 1 nm);
          sig = signatureForMajorName (relativeMajorFromMinor t pref); cyc = cycleFrom L
      in L \<in> set LETTERS \<and> length cyc = 7 \<and>
         buildScaleFromKeyName t Minor pref =
           Inr (Str (L @ drop 1 nm) #
                map (\<lambda>x. Str (applySignature x sig)) (take 5 (drop 1 cyc)) @
                [Str (raiseHalfStep (applySignature (cyc ! 6) sig))])"
    using l cycleFrom_length [OF l] minor_scale_general [OF nm l, of pref]
    by (simp add: nm Let_def)
qed (rule a_minor_before, rule a_minor_scale)

lemma eb_minor: "js ''eb'' \<in> set MINOR_TONICS" "normalizeMinorToken (js ''eb'') = js ''eb''"
  "toUpperCase (take 1 (js ''eb'')) = js ''E''" "drop 1 (js ''eb'') = js ''b''"
  by code_simp+

theorem buildScale_minor_spec_witness:
  "js ''eb'' \<in> set MINOR_TONICS \<and>
   buildScaleFromKeyName (js ''eb'') Minor Flats =
     Inr (Str (js ''E'' @ js ''b'') #
          map (\<lambda>x. Str (applySignature x (signatureForMajorName (relativeMajorFromMinor (js ''eb'') Flats))))
            (take 5 (drop 1 (cycleFrom (js ''E'')))) @
          [Str (raiseHalfStep (applySignature (cycleFrom (js ''E'') ! 6)
                  (signatureForMajorName (relativeMajorFromMinor (js ''eb'') Flats))))]) \<and>
   Auto \<noteq> Flats \<and>
   buildScaleFromKeyName (js ''bb'') Minor Auto =
     Inr (map (Str \<circ> js) [''Bb'', ''C#'', ''D#'', ''E#'', ''F#'', ''G#'', ''A##'']) \<and>
   buildScaleFromKeyName (js ''g'') Minor Auto =
     Inr (map (Str \<circ> js) [''G'', ''A'', ''Bb'', ''C'', ''D'', ''Eb'', ''F#'']) \<and>
   buildScaleFromKeyName (js ''eb'') Minor Flats =
     Inr (map (Str \<circ> js) [''Eb'', ''F'', ''Gb'', ''Ab'', ''Bb'', ''Cb'', ''D''])"
proof -
  note shape = buildScale_minor_spec [of "js ''eb''" Flats, THEN conjunct1]
  note sharps = buildScale_minor_spec [of "js ''eb''" Auto,
      THEN conjunct2, THEN conjunct2, THEN conjunct2, THEN conjunct1]
  note flats = buildScale_minor_spec [of "js ''eb''" Auto,
      THEN conjunct2, THEN conjunct2, THEN conjunct2, THEN conjunct2]
  have n: "Auto \<noteq> Flats" by simp
  have a: "js ''eb'' \<in> set MINOR_TONICS \<and>
   buildScaleFromKeyName (js ''eb'') Minor Flats =
     Inr (Str (js ''E'' @ js ''b'') #
          map (\<lambda>x. Str (applySignature x (signatureForMajorName (relativeMajorFromMinor (js ''eb'') Flats))))
            (take 5 (drop 1 (cycleFrom (js ''E'')))) @
          [Str (raiseHalfStep (applySignature (cycleFrom (js ''E'') ! 6)
                  (signatureForMajorName (relativeMajorFromMinor (js ''eb'') Flats))))])"
    using shape eb_minor by (simp add: Let_def)
  have b: "buildScaleFromKeyName (js ''bb'') Minor Auto =
     Inr (map (Str \<circ> js) [''Bb'', ''C#'', ''D#'', ''E#'', ''F#'', ''G#'', ''A##'']) \<and>
   buildScaleFromKeyName (js ''g'') Minor Auto =
     Inr (map (Str \<circ> js) [''G'', ''A'', ''Bb'', ''C'', ''D'', ''Eb'', ''F#''])"
    using sharps n by simp
  have c: "buildScaleFromKeyName (js ''eb'') Minor Flats =
     Inr (map (Str \<circ> js) [''Eb'', ''F'', ''Gb'', ''Ab'', ''Bb'', ''Cb'', ''D''])"
    using flats by simp
  from a n b c show ?thesis by blast
qed

section \<open>Accidental runs\<close>

lemma RUNS_units: "RUNS = [[], [hash], [hash, hash], [lower_b], [lower_b, lower_b]]"
  by (simp add: RUNS_def js_def hash_def lower_b_def)

lemma homogeneous_applySignature:
  assumes "l \<in> set LETTERS"
  shows "homogeneous (applySignature l sig)"
  using letter_single [OF assms] applySignature_cases [of l sig]
  by (auto simp: homogeneous_def RUNS_units)

lemma raiseHalfStep_cases:
  "raiseHalfStep [c] = [c, hash]" "raiseHalfStep [c, hash] = [c, hash, hash]"
  "raiseHalfStep [c, lower_b] = [c]"
  by (simp_all add: raiseHalfStep_def js_def hash_def lower_b_def)

lemma homogeneous_raised:
  assumes "l \<in> set LETTERS"
  shows "homogeneous (raiseHalfStep (applySignature l sig))"
  using letter_single [OF assms] applySignature_cases [of l sig]
  by (auto simp: homogeneous_def RUNS_units raiseHalfStep_cases)

lemma single_mark:
  assumes "l \<in> set LETTERS"
  shows "length (drop 1 (applySignature l sig)) \<le> 1" "drop 1 (applySignature l sig) \<noteq> js ''##''"
  using letter_single [OF assms] applySignature_cases [of l sig]
  by (auto simp: js_def)

lemma cycle_members:
  assumes "l \<in> set LETTERS"
  shows "set (drop 1 (cycleFrom l)) \<subseteq> set LETTERS" "set (take 5 (drop 1 (cycleFrom l))) \<subseteq> set LETTERS"
    "cycleFrom l ! 6 \<in> set LETTERS"
proof -
  have s: "set (cycleFrom l) = set LETTERS" by (rule cycleFrom_set [OF assms])
  show "set (drop 1 (cycleFrom l)) \<subseteq> set LETTERS"
    using set_drop_subset [of 1 "cycleFrom l"] s by simp
  then show "set (take 5 (drop 1 (cycleFrom l))) \<subseteq> set LETTERS"
    using set_take_subset [of 5 "drop 1 (cycleFrom l)"] by blast
  show "cycleFrom l ! 6 \<in> set LETTERS"
    using nth_mem [of 6 "cycleFrom l"] cycleFrom_length [OF assms] s by simp
qed

text \<open>
  Claim C7. The spellings the engine produces have a homogeneous accidental run (empty,
  \<open>#\<close>, \<open>##\<close>, \<open>b\<close> or \<open>bb\<close>): \<open>applySignature\<close> on a natural letter, under any
  signature; \<open>raiseHalfStep\<close> on such a spelling; and every entry of the scale built
  for each of the 12 circle positions, in either mode and under any preference.
\<close>

theorem spellings_homogeneous:
  "(\<forall>l \<in> set LETTERS. homogeneous (applySignature l sig) \<and>
       homogeneous (raiseHalfStep (applySignature l sig))) \<and>
   (\<forall>p \<in> set POSITIONS.
      \<exists>sc. buildScaleFromKeyName (tonicNameForSpelling p mode pref) mode pref = Inr sc \<and>
           (\<forall>v \<in> set sc. \<exists>s. v = Str s \<and> homogeneous s))"
proof (intro conjI ballI)
  fix l assume "l \<in> set LETTERS"
  then show "homogeneous (applySignature l sig)" "homogeneous (raiseHalfStep (applySignature l sig))"
    by (rule homogeneous_applySignature, rule homogeneous_raised)
next
  fix p assume p: "p \<in> set POSITIONS"
  show "\<exists>sc. buildScaleFromKeyName (tonicNameForSpelling p mode pref) mode pref = Inr sc \<and>
           (\<forall>v \<in> set sc. \<exists>s. v = Str s \<and> homogeneous s)"
  proof (cases mode)
    case Major
    let ?t = "tonicNameForSpelling p Major pref"
    from major_tonic_normal [OF major_tonic_in_catalog [OF p]] obtain c rest
      where nt: "normalizeToken ?t = c # rest" and l: "[c] \<in> set LETTERS" and r: "rest \<in> set RUNS"
      by blast
    let ?sc = "Str (c # rest) #
        map (\<lambda>L. Str (applySignature L (signatureForMajorName (c # rest)))) (drop 1 (cycleFrom [c]))"
    have b: "buildScaleFromKeyName ?t Major pref = Inr ?sc"
      by (simp add: buildScaleFromKeyName_def majorScale_shape [OF nt l])
    have h0: "homogeneous (c # rest)"
      using r by (simp add: homogeneous_def)
    have "\<forall>v \<in> set ?sc. \<exists>s. v = Str s \<and> homogeneous s"
      using cycle_members(1) [OF l] h0 homogeneous_applySignature [of _ "signatureForMajorName (c # rest)"]
      by auto
    with b show ?thesis unfolding Major by blast
  next
    case Minor
    let ?t = "tonicNameForSpelling p Minor pref"
    from minor_tonic_normal [OF minor_tonic_in_catalog [OF p]] obtain c rest
      where nt: "normalizeMinorToken ?t = c # rest" and l: "toUpperCase [c] \<in> set LETTERS"
        and r: "rest \<in> set RUNS"
      by blast
    let ?sig = "signatureForMajorName (relativeMajorFromMinor ?t pref)"
    let ?sc = "Str (toUpperCase [c] @ rest) #
          map (\<lambda>x. Str (applySignature x ?sig)) (take 5 (drop 1 (cycleFrom (toUpperCase [c])))) @
          [Str (raiseHalfStep (applySignature (cycleFrom (toUpperCase [c]) ! 6) ?sig))]"
    have b: "buildScaleFromKeyName ?t Minor pref = Inr ?sc"
      by (rule minor_scale_general [OF nt l])
    have h0: "homogeneous (toUpperCase [c] @ rest)"
      using r by (simp add: homogeneous_def toUpperCase_def)
    have "\<forall>v \<in> set ?sc. \<exists>s. v = Str s \<and> homogeneous s"
      using cycle_members(2,3) [OF l] h0 homogeneous_raised [of _ ?sig] homogeneous_applySignature [of _ ?sig]
      by auto
    with b show ?thesis unfolding Minor by blast
  qed
qed

lemma witness_members: "js ''F'' \<in> set LETTERS" "POSITIONS ! 6 \<in> set POSITIONS"
  by (simp_all add: LETTERS_def POSITIONS_def)

theorem spellings_homogeneous_witness:
  "js ''F'' \<in> set LETTERS \<and>
   homogeneous (applySignature (js ''F'') (signatureForMajorName (js ''G''))) \<and>
   homogeneous (raiseHalfStep (applySignature (js ''F'') (signatureForMajorName (js ''G'')))) \<and>
   POSITIONS ! 6 \<in> set POSITIONS \<and>
   (\<exists>sc. buildScaleFromKeyName (tonicNameForSpelling (POSITIONS ! 6) Minor Sharps) Minor Sharps = Inr sc \<and>
         (\<forall>v \<in> set sc. \<exists>s. v = Str s \<and> homogeneous s))"
  using spellings_homogeneous [of "signatureForMajorName (js ''G'')" Minor Sharps] witness_members
  by blast

section \<open>The input of the raise\<close>

text \<open>
  Claim C8. \<open>raiseHalfStep\<close> is never applied to a double sharp: for every circle position
  and every preference, the harmonic minor scale before the raise exists, its entry at
  index 6 carries at most one accidental mark (\<open>applySignature\<close> adds at most one mark to a
  bare letter), and the built scale is that scale with \<open>raiseHalfStep\<close> applied to this
  entry.
\<close>

theorem raise_input_single_mark:
  "\<forall>p \<in> set POSITIONS.
     \<exists>pre s. minorScaleBeforeRaise (tonicNameForSpelling p Minor pref) pref = Inr pre \<and>
        length pre = 7 \<and> valAt pre 6 = Str s \<and>
        length (drop 1 s) \<le> 1 \<and> drop 1 s \<noteq> js ''##'' \<and>
        buildScaleFromKeyName (tonicNameForSpelling p Minor pref) Minor pref =
          Inr (pre[6 := Str (raiseHalfStep s)])"
proof
  fix p assume p: "p \<in> set POSITIONS"
  let ?t = "tonicNameForSpelling p Minor pref"
  from minor_tonic_normal [OF minor_tonic_in_catalog [OF p]] obtain c rest
    where nt: "normalizeMinorToken ?t = c # rest" and l: "toUpperCase [c] \<in> set LETTERS"
    by blast
  let ?sig = "signatureForMajorName (relativeMajorFromMinor ?t pref)"
  let ?cyc = "cycleFrom (toUpperCase [c])"
  let ?pre = "Str (toUpperCase [c] @ rest) # map (\<lambda>L. Str (applySignature L ?sig)) (drop 1 ?cyc)"
  let ?s = "applySignature (?cyc ! 6) ?sig"
  obtain l0 l1 l2 l3 l4 l5 l6 where cyc: "?cyc = [l0, l1, l2, l3, l4, l5, l6]"
    using cycleFrom_length [OF l] by (rule length7E)
  have pre: "minorScaleBeforeRaise ?t pref = Inr ?pre"
    by (rule minorScaleBeforeRaise_shape [OF nt l])
  have len: "length ?pre = 7" by (simp add: cyc)
  have v: "valAt ?pre 6 = Str ?s" by (simp add: cyc valAt_def)
  have r: "raiseSeventh ?pre = Inr (?pre[6 := Str (raiseHalfStep ?s)])"
    unfolding raiseSeventh_def v by simp
  have b: "buildScaleFromKeyName ?t Minor pref = Inr (?pre[6 := Str (raiseHalfStep ?s)])"
    using r by (simp add: buildScaleFromKeyName_def pre)
  from pre len v b single_mark [OF cycle_members(3) [OF l], of ?sig]
  show "\<exists>pre s. minorScaleBeforeRaise ?t pref = Inr pre \<and>
        length pre = 7 \<and> valAt pre 6 = Str s \<and>
        length (drop 1 s) \<le> 1 \<and> drop 1 s \<noteq> js ''##'' \<and>
        buildScaleFromKeyName ?t Minor pref = Inr (pre[6 := Str (raiseHalfStep s)])"
    by blast
qed

theorem raise_input_single_mark_witness:
  "POSITIONS ! 6 \<in> set POSITIONS \<and>
   (\<exists>pre s. minorScaleBeforeRaise (tonicNameForSpelling (POSITIONS ! 6) Minor Auto) Auto = Inr pre \<and>
        length pre = 7 \<and> valAt pre 6 = Str s \<and>
        length (drop 1 s) \<le> 1 \<and> drop 1 s \<noteq> js ''##'' \<and>
        buildScaleFromKeyName (tonicNameForSpelling (POSITIONS ! 6) Minor Auto) Minor Auto =
          Inr (pre[6 := Str (raiseHalfStep s)]))"
  using raise_input_single_mark [of Auto] witness_members(2) by blast

section \<open>Enharmonic resolution\<close>

lemma splitOn_nonempty: "splitOn sep s \<noteq> []"
  by (induction s) (auto split: list.splits)

lemma splitOn_no_sep: "sep \<notin> set s \<Longrightarrow> splitOn sep s = [s]"
  by (induction s) auto

lemma splitOn_append: "sep \<notin> set x \<Longrightarrow> splitOn sep (x @ sep # y) = x # splitOn sep y"
  by (induction x) auto

lemma splitOn_two: "sep \<in> set s \<Longrightarrow> \<exists>a b r. splitOn sep s = a # b # r"
proof -
  assume "sep \<in> set s"
  then obtain x y where s: "s = x @ sep # y" and x: "sep \<notin> set x"
    by (auto dest: split_list_first)
  obtain b r where "splitOn sep y = b # r"
    using splitOn_nonempty [of sep y] by (cases "splitOn sep y") auto
  then show ?thesis using splitOn_append [OF x, of y] s by simp
qed

lemma resolve_no_slash: "slash \<notin> set raw \<Longrightarrow> resolveEnharmonic raw posAcc pref = raw"
  by (simp add: resolveEnharmonic_def)

lemma resolve_two_halves:
  assumes "slash \<notin> set x" and "slash \<notin> set y"
  shows "resolveEnharmonic (x @ slash # y) posAcc pref =
    (let sharpName = (if sharpMarked (trim x) then trim x else trim y);
         flatName = (if sharpMarked (trim x) then trim y else trim x)
     in if pref = Sharps then sharpName else if pref = Flats then flatName
        else if 0 \<le> posAcc then sharpName else flatName)"
  using assms
  by (simp add: resolveEnharmonic_def splitOn_append splitOn_no_sep sharpMarked_def Let_def)

text \<open>
  Claim C4. \<open>resolveEnharmonic\<close> returns a name without a slash unchanged, for every
  position and preference. On a dual name whose halves are \<open>s\<close> and \<open>f\<close>, of which
  \<open>s\<close> alone is sharp-marked, it returns (trimmed) \<open>s\<close> under the sharps preference
  and \<open>f\<close> under the flats preference, whichever half comes first; under the automatic
  preference it returns \<open>s\<close> when the accidental count of the position is at least 0
  and \<open>f\<close> when it is negative.
\<close>

theorem resolveEnharmonic_spec:
  "(slash \<notin> set raw \<longrightarrow> resolveEnharmonic raw posAcc pref = raw) \<and>
   (slash \<notin> set s \<and> slash \<notin> set f \<and> sharpMarked (trim s) \<and> \<not> sharpMarked (trim f) \<longrightarrow>
      (\<forall>dual \<in> {s @ [slash] @ f, f @ [slash] @ s}.
          resolveEnharmonic dual posAcc Sharps = trim s \<and>
          resolveEnharmonic dual posAcc Flats = trim f \<and>
          resolveEnharmonic dual posAcc Auto = (if 0 \<le> posAcc then trim s else trim f)))"
proof (intro conjI impI)
  assume "slash \<notin> set raw"
  then show "resolveEnharmonic raw posAcc pref = raw" by (rule resolve_no_slash)
next
  assume a: "slash \<notin> set s \<and> slash \<notin> set f \<and> sharpMarked (trim s) \<and> \<not> sharpMarked (trim f)"
  then have s: "slash \<notin> set s" and f: "slash \<notin> set f" by blast+
  show "\<forall>dual \<in> {s @ [slash] @ f, f @ [slash] @ s}.
          resolveEnharmonic dual posAcc Sharps = trim s \<and>
          resolveEnharmonic dual posAcc Flats = trim f \<and>
          resolveEnharmonic dual posAcc Auto = (if 0 \<le> posAcc then trim s else trim f)"
    using a by (simp add: resolve_two_halves [OF s f] resolve_two_halves [OF f s] Let_def)
qed

lemma dual_example:
  "js ''bb / a#'' = js ''bb '' @ [slash] @ js '' a#''" "slash \<notin> set (js ''bb '')"
  "slash \<notin> set (js '' a#'')" "slash \<notin> set (js ''Eb'')"
  "trim (js ''bb '') = js ''bb''" "trim (js '' a#'') = js ''a#''"
  "sharpMarked (js ''a#'')" "\<not> sharpMarked (js ''bb'')"
  by code_simp+

theorem resolveEnharmonic_spec_witness:
  "resolveEnharmonic (js ''Eb'') (- 3) Sharps = js ''Eb'' \<and>
   resolveEnharmonic (js ''bb / a#'') (- 5) Sharps = js ''a#'' \<and>
   resolveEnharmonic (js ''bb / a#'') (- 5) Flats = js ''bb'' \<and>
   resolveEnharmonic (js ''bb / a#'') (- 5) Auto = js ''bb''"
  using resolveEnharmonic_spec [of "js ''Eb''" "- 3" Sharps "js '' a#''" "js ''bb ''"]
    resolveEnharmonic_spec [of "js ''Eb''" "- 5" Sharps "js '' a#''" "js ''bb ''"]
    dual_example
  by simp

section \<open>MIDI numbers\<close>

lemma replaceAll_id:
  assumes "pat \<noteq> []" and "hd pat \<notin> set s"
  shows "replaceAll pat rep s = s"
  using assms
proof (induction s)
  case Nil
  then show ?case by simp
next
  case (Cons c cs)
  have "\<not> prefix pat (c # cs)"
  proof
    assume "prefix pat (c # cs)"
    then have "hd pat = c" using Cons.prems(1) by (cases pat) auto
    with Cons.prems(2) show False by simp
  qed
  with Cons show ?case by simp
qed

lemma asciiNote_id:
  assumes "0x266F \<notin> set s" and "0x266D \<notin> set s" and "0xD834 \<notin> set s"
  shows "asciiNote s = s"
  using assms
  by (simp add: asciiNote_def replaceAll_id glyph_sharp_def glyph_flat_def glyph_dsharp_def
      glyph_dflat_def)

lemma trim_id:
  assumes "\<forall>c \<in> set s. \<not> isWhiteSpace c"
  shows "trim s = s"
proof -
  have d: "dropWhile isWhiteSpace xs = xs" if "\<forall>c \<in> set xs. \<not> isWhiteSpace c" for xs
    using that by (cases xs) auto
  show ?thesis using assms by (simp add: trim_def d)
qed

lemma nat_pc_letter:
  assumes "NAT_PC [L] = Some p"
  shows "L \<in> {0x43, 0x44, 0x45, 0x46, 0x47, 0x41, 0x42}"
  using assms by (simp add: NAT_PC_def js_def split: if_splits)

lemma nat_pc_range:
  assumes "NAT_PC [L] = Some p"
  shows "0 \<le> p \<and> p < 12"
  using assms by (auto simp add: NAT_PC_def js_def split: if_splits)

lemma normalizeToken_spelling:
  assumes L: "NAT_PC [L] = Some p" and run: "set run \<subseteq> {hash, lower_b}"
  shows "normalizeToken (L # run) = L # run" and "asciiNote (L # run) = L # run"
proof -
  have Lc: "L \<in> {0x43, 0x44, 0x45, 0x46, 0x47, 0x41, 0x42}" by (rule nat_pc_letter [OF L])
  have units: "\<forall>c \<in> set (L # run). c \<in> {0x43, 0x44, 0x45, 0x46, 0x47, 0x41, 0x42, 0x23, 0x62}"
    using Lc run by (auto simp: hash_def lower_b_def)
  have g: "0x266F \<notin> set (L # run)" "0x266D \<notin> set (L # run)" "0xD834 \<notin> set (L # run)"
    "slash \<notin> set (L # run)"
    using units by (auto simp: slash_def)
  have w: "\<forall>c \<in> set (L # run). \<not> isWhiteSpace c"
    using units by (auto simp: isWhiteSpace_def)
  show a: "asciiNote (L # run) = L # run" by (rule asciiNote_id [OF g(1-3)])
  have fs: "firstSegment (L # run) = L # run"
    using splitOn_no_sep [OF g(4)] by (simp add: firstSegment_def)
  have up: "toUpperCase [L] = [L]"
    using Lc by (auto simp: toUpperCase_def upperUnit_def)
  have acc: "accidentalsOf (L # run) = run"
    using run by (auto simp: accidentalsOf_def filter_id_conv)
  show "normalizeToken (L # run) = L # run"
    unfolding normalizeToken_def a fs trim_id [OF w] by (simp add: up acc del: set_simps)
qed

lemma js_rem_shift:
  assumes "- 120 \<le> x"
  shows "js_rem (x + 120) 12 = x mod 12"
  using assms by (simp add: js_rem_def) presburger

lemma exact_octave:
  assumes "\<bar>oct\<bar> \<le> 2 ^ 49" and "0 \<le> pc" and "pc < 12"
  shows "exactInt oct" "exactInt (oct + 1)" "exactInt (12 * (oct + 1))"
    "exactInt (12 * (oct + 1) + pc)"
proof -
  from assms(1) have o: "- 562949953421312 \<le> oct" "oct \<le> 562949953421312" by simp_all
  show "exactInt oct" "exactInt (oct + 1)" "exactInt (12 * (oct + 1))"
    "exactInt (12 * (oct + 1) + pc)"
    using o assms(2,3) by (simp_all add: exactInt_def)
qed

lemma exact_offset:
  assumes "- 120 \<le> x" and "x \<le> 2 ^ 53 - 120"
  shows "exactInt x" "exactInt (x + 120)"
  using assms unfolding exactInt_def by simp_all

lemma spelledToMidi_formula:
  assumes "NAT_PC [L] = Some p" and "set run \<subseteq> {hash, lower_b}"
    and "- 120 \<le> p + netOffset run" and "p + netOffset run \<le> 2 ^ 53 - 120"
    and "\<bar>oct\<bar> \<le> 2 ^ 49"
  shows "spelledToMidi (L # run) oct = Num (12 * (oct + 1) + (p + netOffset run) mod 12)"
proof -
  let ?x = "p + netOffset run"
  have x: "p + (int (count_list run hash) - int (count_list run lower_b)) = ?x"
    by (simp add: netOffset_def)
  have r: "js_rem (?x + 120) 12 = ?x mod 12" by (rule js_rem_shift [OF assms(3)])
  have pc: "0 \<le> ?x mod 12" "?x mod 12 < 12" by simp_all
  note g = exact_offset [OF assms(3,4)] exact_octave [OF assms(5) pc]
  show ?thesis
    unfolding spelledToMidi_def normalizeToken_spelling [OF assms(1,2)] Let_def
    using assms(1) g by (simp add: x r)
qed

lemma canonical_run_bound:
  assumes "NAT_PC [L] = Some p" and "run \<in> set RUNS"
  shows "set run \<subseteq> {hash, lower_b}" and "- 120 \<le> p + netOffset run"
    and "p + netOffset run \<le> 2 ^ 53 - 120"
  using nat_pc_range [OF assms(1)] assms(2)
  by (auto simp: RUNS_units netOffset_def hash_def lower_b_def)

lemma midi_examples:
  "spelledToMidi (js ''C#'') 4 = Num 61" "spelledToMidi (js ''Db'') 4 = Num 61"
  by code_simp+

text \<open>Beyond the exact range the model gives no number: here \<open>12 * (oct + 1)\<close> exceeds \<open>2^53\<close>.\<close>

lemma midi_inexact_example: "spelledToMidi (js ''B'') 750599937895082 = Inexact"
  by code_simp

text \<open>
  Claim C6. \<open>spelledToMidi\<close> gives \<open>12 * (octave + 1)\<close> plus the natural pitch class
  of the letter plus the net accidental offset, modulo 12: for every canonical spelling,
  and more generally for every letter A to G followed by a run of \<open>#\<close> and \<open>b\<close> whose
  pitch class plus offset is at least \<open>-120\<close> (the source adds 120 before taking the
  remainder). The octave is an integer of absolute value at most \<open>2^49\<close>, so that the
  double arithmetic of the source is exact. Two such spellings with the same pitch class
  modulo 12 have the same MIDI number at the same octave; \<open>C#4\<close> and \<open>Db4\<close> both
  give 61.
\<close>

theorem spelledToMidi_spec:
  "(NAT_PC [L] = Some p \<and> run \<in> set RUNS \<and> \<bar>oct\<bar> \<le> 2 ^ 49 \<longrightarrow>
      spelledToMidi (L # run) oct = Num (12 * (oct + 1) + (p + netOffset run) mod 12)) \<and>
   (NAT_PC [L] = Some p \<and> set run \<subseteq> {hash, lower_b} \<and>
    - 120 \<le> p + netOffset run \<and> p + netOffset run \<le> 2 ^ 53 - 120 \<and> \<bar>oct\<bar> \<le> 2 ^ 49 \<longrightarrow>
      spelledToMidi (L # run) oct = Num (12 * (oct + 1) + (p + netOffset run) mod 12)) \<and>
   (NAT_PC [L] = Some p \<and> set run \<subseteq> {hash, lower_b} \<and>
    - 120 \<le> p + netOffset run \<and> p + netOffset run \<le> 2 ^ 53 - 120 \<and>
    NAT_PC [L'] = Some p' \<and> set run' \<subseteq> {hash, lower_b} \<and>
    - 120 \<le> p' + netOffset run' \<and> p' + netOffset run' \<le> 2 ^ 53 - 120 \<and>
    \<bar>oct\<bar> \<le> 2 ^ 49 \<and>
    (p + netOffset run) mod 12 = (p' + netOffset run') mod 12 \<longrightarrow>
      spelledToMidi (L # run) oct = spelledToMidi (L' # run') oct) \<and>
   spelledToMidi (js ''C#'') 4 = Num 61 \<and> spelledToMidi (js ''Db'') 4 = Num 61"
proof (intro conjI impI)
  assume "NAT_PC [L] = Some p \<and> run \<in> set RUNS \<and> \<bar>oct\<bar> \<le> 2 ^ 49"
  then have L: "NAT_PC [L] = Some p" and r: "run \<in> set RUNS" and o: "\<bar>oct\<bar> \<le> 2 ^ 49"
    by blast+
  show "spelledToMidi (L # run) oct = Num (12 * (oct + 1) + (p + netOffset run) mod 12)"
    by (rule spelledToMidi_formula [OF L canonical_run_bound [OF L r] o])
next
  assume "NAT_PC [L] = Some p \<and> set run \<subseteq> {hash, lower_b} \<and>
    - 120 \<le> p + netOffset run \<and> p + netOffset run \<le> 2 ^ 53 - 120 \<and> \<bar>oct\<bar> \<le> 2 ^ 49"
  then show "spelledToMidi (L # run) oct = Num (12 * (oct + 1) + (p + netOffset run) mod 12)"
    using spelledToMidi_formula by blast
next
  assume a: "NAT_PC [L] = Some p \<and> set run \<subseteq> {hash, lower_b} \<and>
    - 120 \<le> p + netOffset run \<and> p + netOffset run \<le> 2 ^ 53 - 120 \<and>
    NAT_PC [L'] = Some p' \<and> set run' \<subseteq> {hash, lower_b} \<and>
    - 120 \<le> p' + netOffset run' \<and> p' + netOffset run' \<le> 2 ^ 53 - 120 \<and>
    \<bar>oct\<bar> \<le> 2 ^ 49 \<and>
    (p + netOffset run) mod 12 = (p' + netOffset run') mod 12"
  then have "spelledToMidi (L # run) oct = Num (12 * (oct + 1) + (p + netOffset run) mod 12)"
    and "spelledToMidi (L' # run') oct = Num (12 * (oct + 1) + (p' + netOffset run') mod 12)"
    using spelledToMidi_formula by blast+
  with a show "spelledToMidi (L # run) oct = spelledToMidi (L' # run') oct" by simp
qed (rule midi_examples)+

lemma midi_witness_facts:
  "NAT_PC [0x43] = Some 0" "NAT_PC [0x44] = Some 2" "js ''#'' \<in> set RUNS"
  "set (js ''#'') \<subseteq> {hash, lower_b}" "set (js ''b'') \<subseteq> {hash, lower_b}"
  "netOffset (js ''#'') = 1" "netOffset (js ''b'') = - 1"
  "0x43 # js ''#'' = js ''C#''" "0x44 # js ''b'' = js ''Db''"
  by (simp_all add: NAT_PC_def RUNS_def netOffset_def js_def hash_def lower_b_def)

theorem spelledToMidi_spec_witness:
  "spelledToMidi (js ''C#'') 7 = Num 97 \<and>
   spelledToMidi (js ''C#'') 7 = spelledToMidi (js ''Db'') 7"
  using spelledToMidi_spec [of "0x43" 0 "js ''#''" 7 "0x44" 2 "js ''b''"]
  by (auto simp add: midi_witness_facts)

section \<open>The scale builder always returns\<close>

lemma indexOf_LETTERS_range:
  "indexOf LETTERS x = - 1 \<or> indexOf LETTERS x = 0 \<or> indexOf LETTERS x = 1 \<or>
   indexOf LETTERS x = 2 \<or> indexOf LETTERS x = 3 \<or> indexOf LETTERS x = 4 \<or>
   indexOf LETTERS x = 5 \<or> indexOf LETTERS x = 6"
  by (simp add: indexOf_def LETTERS_units)

lemma walkLetters_values:
  "walkLetters (- 1) = Undefined # map Str [[67], [68], [69], [70], [71], [65]]"
  "walkLetters 0 = map Str [[67], [68], [69], [70], [71], [65], [66]]"
  "walkLetters 1 = map Str [[68], [69], [70], [71], [65], [66], [67]]"
  "walkLetters 2 = map Str [[69], [70], [71], [65], [66], [67], [68]]"
  "walkLetters 3 = map Str [[70], [71], [65], [66], [67], [68], [69]]"
  "walkLetters 4 = map Str [[71], [65], [66], [67], [68], [69], [70]]"
  "walkLetters 5 = map Str [[65], [66], [67], [68], [69], [70], [71]]"
  "walkLetters 6 = map Str [[66], [67], [68], [69], [70], [71], [65]]"
  by (simp_all add: walkLetters_def upt7 strAt_def js_rem_def LETTERS_units)

lemma normalizeMinorToken_nonempty: "normalizeMinorToken t \<noteq> []"
  by (simp add: normalizeMinorToken_def Let_def js_def toLowerCase_def split: list.splits)


lemma walkLetters_defined:
  "\<exists>v0 s1 s2 s3 s4 s5 s6.
     walkLetters (indexOf LETTERS x) = [v0, Str s1, Str s2, Str s3, Str s4, Str s5, Str s6]"
  using indexOf_LETTERS_range [of x]
  by (elim disjE) (simp_all only: walkLetters_values list.map, blast+)

lemma applySignatureVal_simps:
  "applySignatureVal sig Undefined = Undefined"
  "applySignatureVal sig (Str L) = Str (applySignature L sig)"
  by (simp_all add: applySignatureVal_def)

text \<open>
  \<open>buildScaleFromKeyName\<close> returns on every input: neither branch that throws in the
  source is reachable, and the result has 7 entries.
\<close>

lemma buildScaleFromKeyName_total:
  "\<exists>sc. buildScaleFromKeyName t mode pref = Inr sc \<and> length sc = 7"
proof (cases mode)
  case Major
  then show ?thesis
    by (simp add: buildScaleFromKeyName_def majorScale_def Let_def walkLetters_def)
next
  case Minor
  obtain c rest where nm: "normalizeMinorToken t = c # rest"
    using normalizeMinorToken_nonempty [of t] by (cases "normalizeMinorToken t") auto
  obtain v0 s1 s2 s3 s4 s5 s6
    where w: "walkLetters (indexOf LETTERS (toUpperCase [c])) =
                [v0, Str s1, Str s2, Str s3, Str s4, Str s5, Str s6]"
    using walkLetters_defined by blast
  have pre: "minorScaleBeforeRaise t pref =
      Inr [Str (toUpperCase [c] @ rest),
           Str (applySignature s1 (signatureForMajorName (relativeMajorFromMinor t pref))),
           Str (applySignature s2 (signatureForMajorName (relativeMajorFromMinor t pref))),
           Str (applySignature s3 (signatureForMajorName (relativeMajorFromMinor t pref))),
           Str (applySignature s4 (signatureForMajorName (relativeMajorFromMinor t pref))),
           Str (applySignature s5 (signatureForMajorName (relativeMajorFromMinor t pref))),
           Str (applySignature s6 (signatureForMajorName (relativeMajorFromMinor t pref)))]"
    unfolding minorScaleBeforeRaise_def nm Let_def
    by (simp add: w applySignatureVal_simps)
  show ?thesis
    unfolding Minor buildScaleFromKeyName_def pre
    by (simp add: raiseSeventh_7)
qed

end
